theory Spec2Isabelle
  imports Complex_Main "HOL-Library.Sublist"
begin

section \<open>Floating-point cells of a data frame\<close>

text \<open>
  The reconciliation in \<^verbatim>\<open>rate_analysis12.5.py\<close> works on pandas float64 columns.
  A float is modelled by its exact rational value, the two infinities, or NaN, which
  pandas uses for a missing value. Rounding of binary floating point is not modelled:
  arithmetic on finite values is exact.
\<close>

datatype pyfloat = Fin rat | PInf | NInf | NaN

text \<open>\<^verbatim>\<open>pd.isna\<close> on a float.\<close>

fun isna :: "pyfloat \<Rightarrow> bool" where
  "isna NaN = True"
| "isna _ = False"

text \<open>\<^verbatim>\<open>abs\<close> on a float.\<close>

fun fabs :: "pyfloat \<Rightarrow> pyfloat" where
  "fabs (Fin x) = Fin \<bar>x\<bar>"
| "fabs PInf = PInf"
| "fabs NInf = PInf"
| "fabs NaN = NaN"

text \<open>The comparisons \<^verbatim>\<open><\<close> and \<^verbatim>\<open>>=\<close>: every comparison with NaN is false.\<close>

fun flt :: "pyfloat \<Rightarrow> pyfloat \<Rightarrow> bool" where
  "flt NaN _ = False"
| "flt _ NaN = False"
| "flt (Fin x) (Fin y) = (x < y)"
| "flt (Fin _) PInf = True"
| "flt (Fin _) NInf = False"
| "flt PInf _ = False"
| "flt NInf NInf = False"
| "flt NInf _ = True"

fun fge :: "pyfloat \<Rightarrow> pyfloat \<Rightarrow> bool" where
  "fge NaN _ = False"
| "fge _ NaN = False"
| "fge (Fin x) (Fin y) = (x \<ge> y)"
| "fge (Fin _) PInf = False"
| "fge (Fin _) NInf = True"
| "fge PInf _ = True"
| "fge NInf NInf = True"
| "fge NInf _ = False"

text \<open>
  Float arithmetic as numpy does it elementwise: NaN propagates, a finite value divided by
  zero is an infinity of its sign (no exception is raised), and \<open>0 / 0\<close>,
  \<open>inf - inf\<close> and \<open>inf / inf\<close> are NaN. Signed zeros are not modelled.
\<close>

fun fneg :: "pyfloat \<Rightarrow> pyfloat" where
  "fneg (Fin x) = Fin (- x)"
| "fneg PInf = NInf"
| "fneg NInf = PInf"
| "fneg NaN = NaN"

fun fadd :: "pyfloat \<Rightarrow> pyfloat \<Rightarrow> pyfloat" where
  "fadd NaN _ = NaN"
| "fadd _ NaN = NaN"
| "fadd (Fin x) (Fin y) = Fin (x + y)"
| "fadd (Fin _) PInf = PInf"
| "fadd (Fin _) NInf = NInf"
| "fadd PInf NInf = NaN"
| "fadd PInf _ = PInf"
| "fadd NInf PInf = NaN"
| "fadd NInf _ = NInf"

definition fsub :: "pyfloat \<Rightarrow> pyfloat \<Rightarrow> pyfloat" where
  "fsub a b = fadd a (fneg b)"

fun fdiv :: "pyfloat \<Rightarrow> pyfloat \<Rightarrow> pyfloat" where
  "fdiv NaN _ = NaN"
| "fdiv _ NaN = NaN"
| "fdiv (Fin x) (Fin y) =
     (if y \<noteq> 0 then Fin (x / y)
      else if 0 < x then PInf else if x < 0 then NInf else NaN)"
| "fdiv (Fin _) PInf = Fin 0"
| "fdiv (Fin _) NInf = Fin 0"
| "fdiv PInf (Fin y) = (if y < 0 then NInf else PInf)"
| "fdiv NInf (Fin y) = (if y < 0 then PInf else NInf)"
| "fdiv PInf _ = NaN"
| "fdiv NInf _ = NaN"

text \<open>\<^verbatim>\<open>.fillna(0)\<close> and \<^verbatim>\<open>.round(2)\<close> (round half to even on the scaled value).\<close>

fun fillna0 :: "pyfloat \<Rightarrow> pyfloat" where
  "fillna0 NaN = Fin 0"
| "fillna0 x = x"

definition round_half_even :: "rat \<Rightarrow> int" where
  "round_half_even q =
     (let f = \<lfloor>q\<rfloor>; d = q - of_int f
      in if d < 1 / 2 then f else if 1 / 2 < d then f + 1
         else if even f then f else f + 1)"

fun fround2 :: "pyfloat \<Rightarrow> pyfloat" where
  "fround2 (Fin x) = Fin (of_int (round_half_even (x * 100)) / 100)"
| "fround2 x = x"

section \<open>Cells, the pandas conversions and data frames\<close>

text \<open>
  A cell read from a workbook is a number (an empty cell is NaN) or a string. The two
  pandas conversions the code relies on are library code: the parser behind
  \<^verbatim>\<open>pd.to_numeric\<close> and the float formatting behind \<^verbatim>\<open>astype(str)\<close>. They are
  parameters of the model.
\<close>

datatype cell = CNum pyfloat | CStr string

record pylib =
  parse_float :: "string \<Rightarrow> pyfloat option"
  str_float :: "pyfloat \<Rightarrow> string"

text \<open>\<^verbatim>\<open>pd.to_numeric(x, errors="coerce")\<close> on one cell: what does not parse becomes NaN.\<close>

definition to_numeric :: "pylib \<Rightarrow> cell \<Rightarrow> pyfloat" where
  "to_numeric P c =
     (case c of
        CNum x \<Rightarrow> x
      | CStr s \<Rightarrow> (case parse_float P s of None \<Rightarrow> NaN | Some x \<Rightarrow> x))"

definition astype_str :: "pylib \<Rightarrow> cell \<Rightarrow> string" where
  "astype_str P c = (case c of CNum x \<Rightarrow> str_float P x | CStr s \<Rightarrow> s)"

text \<open>\<^verbatim>\<open>.str.replace(",", "", regex=False)\<close>.\<close>

definition remove_commas :: "string \<Rightarrow> string" where
  "remove_commas s = filter (\<lambda>c. c \<noteq> CHR '','') s"

text \<open>
  A data frame: its column names in order, and its rows in order. A row gives a cell
  for every column name of the frame; what it gives for other names is never read.
\<close>

record frame =
  columns :: "string list"
  rows :: "(string \<Rightarrow> cell) list"

text \<open>\<^verbatim>\<open>df[name] = values\<close>, the values computed row by row.\<close>

definition assign :: "string \<Rightarrow> ((string \<Rightarrow> cell) \<Rightarrow> cell) \<Rightarrow> frame \<Rightarrow> frame" where
  "assign name f df =
     \<lparr>columns = (if name \<in> set (columns df) then columns df else columns df @ [name]),
      rows = map (\<lambda>r. r(name := f r)) (rows df)\<rparr>"

datatype py_error =
  KeyError | AttributeError | RuntimeError | ValueError | FileNotFoundError
  | RequestException

section \<open>The contract rate table\<close>

text \<open>
  One row of the sheet \<^verbatim>\<open>Contracted Rates - Land\<close>: the \<^verbatim>\<open>Center #\<close> cell and the
  three rate columns, which are read as float columns (an empty cell is NaN).
\<close>

record land_row =
  center :: cell
  monthly :: pyfloat
  seasonal :: pyfloat
  billing_months :: pyfloat

text \<open>
  \<^verbatim>\<open>astype(str).str.extract(r"(\d+)")\<close> and \<^verbatim>\<open>pd.to_numeric(...).astype("Int64")\<close>
  (lines 73-74): the first run of decimal digits, as an integer; missing when the text
  has no digit.
\<close>

definition is_digit :: "char \<Rightarrow> bool" where
  "is_digit c = (48 \<le> (of_char c :: nat) \<and> (of_char c :: nat) \<le> 57)"

definition extract_digits :: "string \<Rightarrow> string option" where
  "extract_digits s =
     (let t = takeWhile is_digit (dropWhile (\<lambda>c. \<not> is_digit c) s)
      in if t = [] then None else Some t)"

definition digits_value :: "string \<Rightarrow> nat" where
  "digits_value ds = foldl (\<lambda>n c. 10 * n + ((of_char c :: nat) - 48)) 0 ds"

definition location_id :: "pylib \<Rightarrow> cell \<Rightarrow> int option" where
  "location_id P c = map_option (\<lambda>ds. int (digits_value ds)) (extract_digits (astype_str P c))"

text \<open>
  Lines 80-82: the monthly rate, replaced by seasonal rate / billing months in the rows
  where the monthly rate is missing and the other two are present.
\<close>

definition contracted_rate :: "land_row \<Rightarrow> pyfloat" where
  "contracted_rate r =
     (if isna (monthly r) \<and> \<not> isna (seasonal r) \<and> \<not> isna (billing_months r)
      then fdiv (seasonal r) (billing_months r)
      else monthly r)"

text \<open>
  Line 84, \<^verbatim>\<open>set_index("Location ID")["Contracted Rate"].to_dict()\<close>: a dictionary built
  in row order, so a later row of the same location replaces an earlier one. A row
  without a location is stored under the missing key.
\<close>

definition rate_map :: "pylib \<Rightarrow> land_row list \<Rightarrow> (int option \<rightharpoonup> pyfloat)" where
  "rate_map P land =
     foldl (\<lambda>m r. m(location_id P (center r) \<mapsto> contracted_rate r)) Map.empty land"

text \<open>
  Lines 180-182, \<^verbatim>\<open>pd.to_numeric(df["Location ID"].map(rate_map), errors="coerce")\<close>:
  an integral number finds the rate stored under it; a string, a fraction, a missing
  cell or a location the dictionary does not have gives NaN.
\<close>

definition map_rate :: "(int option \<rightharpoonup> pyfloat) \<Rightarrow> cell \<Rightarrow> pyfloat" where
  "map_rate m c =
     (case c of
        CNum (Fin q) \<Rightarrow>
          (if q = of_int \<lfloor>q\<rfloor>
           then (case m (Some \<lfloor>q\<rfloor>) of Some v \<Rightarrow> v | None \<Rightarrow> NaN)
           else NaN)
      | _ \<Rightarrow> NaN)"

section \<open>The approval decision\<close>

text \<open>
  \<^verbatim>\<open>decide_approval\<close> (rate_analysis12.5.py, lines 212-225), with the checks in the
  order of the source: missing, then within six cents, then under contract by at most
  five dollars.
\<close>

definition decide_approval :: "pyfloat \<Rightarrow> string" where
  "decide_approval diff =
     (if isna diff then ''Review''
      else if flt (fabs diff) (Fin (6 / 100)) then ''Approved''
      else if flt diff (Fin 0) \<and> fge diff (Fin (- 5)) then ''Approved''
      else ''Review'')"

section \<open>Building the Rate_Comps sheet\<close>

text \<open>
  Lines 91-105: the helper columns written into the invoice frame. The two tax columns
  are read with \<^verbatim>\<open>inv_df.get(name, 0)\<close>; when the column is absent
  \<^verbatim>\<open>pd.to_numeric(0, errors="coerce")\<close> is the scalar 0, which has no \<^verbatim>\<open>fillna\<close>,
  and the call raises AttributeError.
\<close>

definition labor_helper :: "pylib \<Rightarrow> frame \<Rightarrow> frame" where
  "labor_helper P df =
     (if ''Invoice Labor Amount'' \<in> set (columns df)
      then assign ''__Inv.LaborOnly'' (\<lambda>r. CNum (to_numeric P (r ''Invoice Labor Amount''))) df
      else df)"

definition amount_helper :: "pylib \<Rightarrow> frame \<Rightarrow> frame" where
  "amount_helper P df =
     (if ''Invoice Amount'' \<in> set (columns df)
      then assign ''__InvoiceAmount'' (\<lambda>r. CNum (to_numeric P (r ''Invoice Amount''))) df
      else df)"

definition tax_helper :: "pylib \<Rightarrow> frame \<Rightarrow> py_error + frame" where
  "tax_helper P df =
     (if ''Invoice Tax Amount'' \<notin> set (columns df) then Inl AttributeError
      else if ''Invoice Tax2 Amount'' \<notin> set (columns df) then Inl AttributeError
      else Inr (assign ''__SalesTax''
             (\<lambda>r. CNum (fround2 (fadd (fillna0 (to_numeric P (r ''Invoice Tax Amount'')))
                                      (fillna0 (to_numeric P (r ''Invoice Tax2 Amount'')))))) df))"

text \<open>
  Lines 110-150: for each output field, in the order of the dictionary, the first
  candidate column that the invoice frame has; KeyError when a field has none.
\<close>

definition col_candidates :: "(string \<times> string list) list" where
  "col_candidates =
     [(''Location ID'', [''Location ID'', ''Location Number'']),
      (''W.O.#'', [''W.O.#'', ''WO Tracking Number'']),
      (''Category'', [''Category'']),
      (''Trade'', [''Trade'']),
      (''Invoice Number'', [''Invoice Number'']),
      (''Inv.Status'', [''Inv.Status'', ''Invoice Status'']),
      (''Inv.Total'', [''Invoice Amount'', ''__InvoiceAmount'', ''Inv.Total'', ''Inv.Total '']),
      (''Invoice Labor Amount'', [''Invoice Labor Amount'', ''__Inv.LaborOnly'']),
      (''Sales Tax'', [''Invoice Tax Amount'', ''__SalesTax'', ''Sales Tax''])]"

fun first_present :: "string list \<Rightarrow> string list \<Rightarrow> string option" where
  "first_present cols [] = None"
| "first_present cols (c # cs) = (if c \<in> set cols then Some c else first_present cols cs)"

fun select_cols :: "string list \<Rightarrow> (string \<times> string list) list \<Rightarrow> py_error + (string \<times> string) list" where
  "select_cols cols [] = Inr []"
| "select_cols cols ((out_name, candidates) # rest) =
     (case first_present cols candidates of
        None \<Rightarrow> Inl KeyError
      | Some c \<Rightarrow>
          (case select_cols cols rest of
             Inl e \<Rightarrow> Inl e
           | Inr sel \<Rightarrow> Inr ((out_name, c) # sel)))"

text \<open>\<^verbatim>\<open>selected_cols[out_name]\<close>; every output field has an entry once the selection succeeded.\<close>

definition selected :: "(string \<times> string) list \<Rightarrow> string \<Rightarrow> string" where
  "selected sel out_name = (case map_of sel out_name of Some c \<Rightarrow> c | None \<Rightarrow> out_name)"

text \<open>
  Lines 186-204: a money column is turned into text, its commas are removed and the
  text is parsed; what does not parse becomes NaN.
\<close>

definition clean_numeric :: "pylib \<Rightarrow> cell \<Rightarrow> pyfloat" where
  "clean_numeric P c = to_numeric P (CStr (remove_commas (astype_str P c)))"

definition rate_comps_columns :: "string list" where
  "rate_comps_columns =
     [''Location ID'', ''W.O.#'', ''Category'', ''Trade'', ''Invoice Number'', ''Inv.Status'',
      ''Inv.Total'', ''Invoice Labor Amount'', ''Sales Tax'', ''Contracted Rate'',
      ''Rate Difference'', ''Approval.Status'']"

text \<open>
  Lines 164-229 on one row: the nine selected invoice columns under their Rate_Comps
  names, the contracted rate of the location, the normalised money columns, the rate
  difference and the decision.
\<close>

definition rate_comps_row ::
  "pylib \<Rightarrow> (int option \<rightharpoonup> pyfloat) \<Rightarrow> (string \<times> string) list \<Rightarrow> (string \<Rightarrow> cell) \<Rightarrow> (string \<Rightarrow> cell)" where
  "rate_comps_row P rm sel r =
     (let rate = map_rate rm (r (selected sel ''Location ID''));
          total = clean_numeric P (r (selected sel ''Inv.Total''));
          diff = fsub total rate
      in (\<lambda>_. CNum NaN)
         (''Location ID'' := r (selected sel ''Location ID''),
          ''W.O.#'' := r (selected sel ''W.O.#''),
          ''Category'' := r (selected sel ''Category''),
          ''Trade'' := r (selected sel ''Trade''),
          ''Invoice Number'' := r (selected sel ''Invoice Number''),
          ''Inv.Status'' := r (selected sel ''Inv.Status''),
          ''Inv.Total'' := CNum total,
          ''Invoice Labor Amount'' := CNum (clean_numeric P (r (selected sel ''Invoice Labor Amount''))),
          ''Sales Tax'' := CNum (clean_numeric P (r (selected sel ''Sales Tax''))),
          ''Contracted Rate'' := CNum rate,
          ''Rate Difference'' := CNum diff,
          ''Approval.Status'' := CStr (decide_approval diff)))"

text \<open>
  Lines 140-229: the selection of the columns and the row-wise computation, on the
  invoice frame as it is after the helper columns were written.
\<close>

definition rate_comps_of :: "pylib \<Rightarrow> (int option \<rightharpoonup> pyfloat) \<Rightarrow> frame \<Rightarrow> py_error + frame" where
  "rate_comps_of P rm df =
     (case select_cols (columns df) col_candidates of
        Inl e \<Rightarrow> Inl e
      | Inr sel \<Rightarrow>
          Inr \<lparr>columns = rate_comps_columns,
               rows = map (rate_comps_row P rm sel) (rows df)\<rparr>)"

text \<open>
  \<^verbatim>\<open>build_rate_comps\<close>: the Rate_Comps frame that is written into the workbook, from
  the first sheet of the invoice workbook and the rows of the contract sheet.
\<close>

definition build_rate_comps :: "pylib \<Rightarrow> frame \<Rightarrow> land_row list \<Rightarrow> py_error + frame" where
  "build_rate_comps P inv_df land_df =
     (let rm = rate_map P land_df in
      case tax_helper P (amount_helper P (labor_helper P inv_df)) of
        Inl e \<Rightarrow> Inl e
      | Inr df \<Rightarrow> rate_comps_of P rm df)"

text \<open>
  A helper column \<open>h\<close> is hidden from the selection over the columns \<open>cols\<close> when
  every output field either does not list it as a candidate or lists before it a
  column that \<open>cols\<close> has.
\<close>

definition hidden :: "string \<Rightarrow> string list \<Rightarrow> bool" where
  "hidden h cols \<longleftrightarrow>
     (\<forall>cand \<in> snd ` set col_candidates.
        h \<notin> set cand \<or> (\<exists>c cs'. cand = c # cs' \<and> c \<in> set cols \<and> c \<noteq> h))"

text \<open>The cell of a result at a row index and column name; none when the run raised.\<close>

definition cell_at :: "py_error + frame \<Rightarrow> nat \<Rightarrow> string \<Rightarrow> cell option" where
  "cell_at res i name =
     (case res of
        Inl e \<Rightarrow> None
      | Inr out \<Rightarrow> if i < length (rows out) then Some ((rows out ! i) name) else None)"

section \<open>Example sheets\<close>

text \<open>
  An invoice report of four work orders and a contract sheet of three centers: the
  first invoice matches its monthly rate and has a tax cell that is no number, the
  second is 5.01 under a seasonal rate of 6000 over 6 months, the third belongs to a
  center without any rate, the fourth has a total that is no number.
\<close>

definition example_invoice :: frame where
  "example_invoice =
     \<lparr>columns = [''Location ID'', ''WO Tracking Number'', ''Category'', ''Trade'',
                 ''Invoice Number'', ''Invoice Status'', ''Invoice Amount'',
                 ''Invoice Labor Amount'', ''Invoice Tax Amount'', ''Invoice Tax2 Amount''],
      rows =
        [(\<lambda>_. CNum NaN)
           (''Location ID'' := CNum (Fin 100), ''WO Tracking Number'' := CNum (Fin 5001),
            ''Category'' := CStr ''Maintenance'', ''Trade'' := CStr ''LANDSCAPING'',
            ''Invoice Number'' := CStr ''INV-1'', ''Invoice Status'' := CStr ''Open'',
            ''Invoice Amount'' := CStr ''1,000.00'', ''Invoice Labor Amount'' := CStr ''1,000.00'',
            ''Invoice Tax Amount'' := CStr ''n/a''),
         (\<lambda>_. CNum NaN)
           (''Location ID'' := CNum (Fin 200), ''WO Tracking Number'' := CNum (Fin 5002),
            ''Category'' := CStr ''Maintenance'', ''Trade'' := CStr ''LANDSCAPING'',
            ''Invoice Number'' := CStr ''INV-2'', ''Invoice Status'' := CStr ''Open'',
            ''Invoice Amount'' := CStr ''994.99'', ''Invoice Labor Amount'' := CStr ''994.99'',
            ''Invoice Tax Amount'' := CStr ''0.00''),
         (\<lambda>_. CNum NaN)
           (''Location ID'' := CNum (Fin 300), ''WO Tracking Number'' := CNum (Fin 5003),
            ''Category'' := CStr ''Maintenance'', ''Trade'' := CStr ''LANDSCAPING'',
            ''Invoice Number'' := CStr ''INV-3'', ''Invoice Status'' := CStr ''Open'',
            ''Invoice Amount'' := CStr ''900.00'', ''Invoice Labor Amount'' := CStr ''900.00'',
            ''Invoice Tax Amount'' := CStr ''0.00''),
         (\<lambda>_. CNum NaN)
           (''Location ID'' := CNum (Fin 100), ''WO Tracking Number'' := CNum (Fin 5004),
            ''Category'' := CStr ''Maintenance'', ''Trade'' := CStr ''LANDSCAPING'',
            ''Invoice Number'' := CStr ''INV-4'', ''Invoice Status'' := CStr ''Open'',
            ''Invoice Amount'' := CStr ''TBD'', ''Invoice Labor Amount'' := CStr ''1,000.00'',
            ''Invoice Tax Amount'' := CStr ''0.00'')]\<rparr>"

definition example_contract :: "land_row list" where
  "example_contract =
     [\<lparr>center = CStr ''Center 100 - North'', monthly = Fin 1000, seasonal = NaN, billing_months = NaN\<rparr>,
      \<lparr>center = CStr ''Center 200 - South'', monthly = NaN, seasonal = Fin 6000, billing_months = Fin 6\<rparr>,
      \<lparr>center = CStr ''Center 300 - East'', monthly = NaN, seasonal = NaN, billing_months = Fin 6\<rparr>]"

definition example_selection :: "(string \<times> string) list" where
  "example_selection =
     [(''Location ID'', ''Location ID''), (''W.O.#'', ''WO Tracking Number''),
      (''Category'', ''Category''), (''Trade'', ''Trade''),
      (''Invoice Number'', ''Invoice Number''), (''Inv.Status'', ''Invoice Status''),
      (''Inv.Total'', ''Invoice Amount''), (''Invoice Labor Amount'', ''Invoice Labor Amount''),
      (''Sales Tax'', ''Invoice Tax Amount'')]"

section \<open>Choosing the invoice CSV\<close>

text \<open>
  \<^verbatim>\<open>find_invoice_csv\<close> (full_auto_droplet.py, lines 20-73). A path is the list of its
  components, \<^verbatim>\<open>os.path.join(root, f)\<close> appends the file name, \<^verbatim>\<open>os.path.basename\<close>
  is the last component, and two paths are equal after \<^verbatim>\<open>os.path.normpath\<close> when
  their components are equal. The directory walk is given as \<^verbatim>\<open>os.walk\<close> yields it:
  the directories with their file names, the extraction directory first.
  \<^verbatim>\<open>str.lower\<close> is modelled on ASCII letters.
\<close>

type_synonym path = "string list"

definition lower_char :: "char \<Rightarrow> char" where
  "lower_char c =
     (if 65 \<le> (of_char c :: nat) \<and> (of_char c :: nat) \<le> 90
      then Char (digit0 c) (digit1 c) (digit2 c) (digit3 c) (digit4 c) True (digit6 c) (digit7 c)
      else c)"

definition lower :: "string \<Rightarrow> string" where
  "lower s = map lower_char s"

definition endswith :: "string \<Rightarrow> string \<Rightarrow> bool" where
  "endswith s suf = (length suf \<le> length s \<and> drop (length s - length suf) s = suf)"

fun contains :: "string \<Rightarrow> string \<Rightarrow> bool" where
  "contains sub [] = (sub = [])"
| "contains sub (c # cs) = (take (length sub) (c # cs) = sub \<or> contains sub cs)"

definition basename :: "path \<Rightarrow> string" where
  "basename p = (case rev p of [] \<Rightarrow> [] | f # _ \<Rightarrow> f)"

definition PREFERRED_NAME :: string where
  "PREFERRED_NAME = ''invoice_report_-_financial_details.csv''"

definition csv_candidates :: "(path \<times> string list) list \<Rightarrow> path list" where
  "csv_candidates walk =
     concat (map (\<lambda>(root, files).
                    map (\<lambda>f. root @ [f]) (filter (\<lambda>f. endswith (lower f) ''.csv'') files))
                 walk)"

definition is_financial :: "path \<Rightarrow> bool" where
  "is_financial c = contains ''financial_details'' (lower (basename c))"

definition is_accounting :: "path \<Rightarrow> bool" where
  "is_accounting c = contains ''accounting_details'' (lower (basename c))"

definition find_invoice_csv :: "path \<Rightarrow> (path \<times> string list) list \<Rightarrow> py_error + path" where
  "find_invoice_csv extract_dir walk =
     (case csv_candidates walk of
        [] \<Rightarrow> Inl FileNotFoundError
      | first # others \<Rightarrow>
          (let candidates = first # others;
               preferred_exact = extract_dir @ [PREFERRED_NAME]
           in case find (\<lambda>c. c = preferred_exact) candidates of
                Some c \<Rightarrow> Inr c
              | None \<Rightarrow>
                  (case find is_financial candidates of
                     Some c \<Rightarrow> Inr c
                   | None \<Rightarrow>
                       (case find is_accounting candidates of
                          Some c \<Rightarrow> Inr c
                        | None \<Rightarrow> Inr first))))"

section \<open>The approval client\<close>

text \<open>
  The second part of \<^verbatim>\<open>DL_contract_rate_land.py\<close> (from line 72 on) submits the
  approvals. Python's \<^verbatim>\<open>str.strip\<close> and \<^verbatim>\<open>str.upper\<close> are modelled on ASCII.
\<close>

definition is_space :: "char \<Rightarrow> bool" where
  "is_space c = ((9 \<le> (of_char c :: nat) \<and> (of_char c :: nat) \<le> 13)
                 \<or> (28 \<le> (of_char c :: nat) \<and> (of_char c :: nat) \<le> 32))"

definition strip :: "string \<Rightarrow> string" where
  "strip s = rev (dropWhile is_space (rev (dropWhile is_space s)))"

definition upper_char :: "char \<Rightarrow> char" where
  "upper_char c =
     (if 97 \<le> (of_char c :: nat) \<and> (of_char c :: nat) \<le> 122
      then Char (digit0 c) (digit1 c) (digit2 c) (digit3 c) (digit4 c) False (digit6 c) (digit7 c)
      else c)"

definition upper :: "string \<Rightarrow> string" where
  "upper s = map upper_char s"

definition APPROVAL_CODE_DEFAULT :: string where
  "APPROVAL_CODE_DEFAULT = ''5440-102100''"

definition CATEGORY_FALLBACK :: string where
  "CATEGORY_FALLBACK = ''MAINTENANCE''"

subsection \<open>The network\<close>

text \<open>
  One entry of the \<^verbatim>\<open>value\<close> list of the OData answer, and the metadata kept from it
  (its \<^verbatim>\<open>Id\<close> is never null).
\<close>

record item =
  item_id :: "int option"
  item_trade :: "string option"
  item_approval_code :: "string option"
  item_number :: "string option"

record meta =
  meta_id :: int
  meta_trade :: "string option"
  meta_approval_code :: "string option"
  meta_number :: "string option"

text \<open>
  An HTTP response: its status, its text, and what \<^verbatim>\<open>resp.json().get("value", [])\<close>
  gives (none when decoding raises). A request either gets a response or raises
  \<^verbatim>\<open>requests.RequestException\<close>. The token endpoint answers with a status that is
  \<^verbatim>\<open>ok\<close> or not and possibly an \<^verbatim>\<open>access_token\<close>, or the request fails.
\<close>

record response =
  status_code :: nat
  resp_text :: string
  json_value :: "item list option"

datatype reply = Response response | ConnectionFailed

datatype token_reply = TokenResponse bool "string option" | TokenConnectionFailed

datatype request = LookupRequest string | ApproveRequest int string string

text \<open>
  Everything the run does on the network, in order: a token fetch with its answer, or
  an API request with the bearer token it carried and its answer.
\<close>

datatype event = TokenFetch token_reply | ApiCall request string reply

text \<open>
  The servers are outside the program: the \<open>n\<close>-th API request of a run and the
  \<open>n\<close>-th token fetch of a run get the answers that the world holds for them.
\<close>

record world =
  api_reply :: "nat \<Rightarrow> reply"
  token_reply_at :: "nat \<Rightarrow> token_reply"

text \<open>
  The mutable state of a run: the token slot \<^verbatim>\<open>token_box\<close>, the lookup cache (a
  work order that was looked up in vain is cached as none), and the log of the
  network events so far.
\<close>

record client =
  token_box :: "string option"
  cache :: "string \<rightharpoonup> meta option"
  log :: "event list"

fun is_api_call :: "event \<Rightarrow> bool" where
  "is_api_call (ApiCall _ _ _) = True"
| "is_api_call (TokenFetch _) = False"

definition api_calls :: "event list \<Rightarrow> nat" where
  "api_calls es = length (filter is_api_call es)"

definition token_fetches :: "event list \<Rightarrow> nat" where
  "token_fetches es = length (filter (\<lambda>e. \<not> is_api_call e) es)"

subsection \<open>Tokens\<close>

text \<open>\<^verbatim>\<open>get_access_token\<close> (lines 116-136).\<close>

definition get_access_token :: "world \<Rightarrow> client \<Rightarrow> (py_error + string) \<times> client" where
  "get_access_token w s =
     (let r = token_reply_at w (token_fetches (log s));
          s' = s\<lparr>log := log s @ [TokenFetch r]\<rparr>
      in case r of
           TokenConnectionFailed \<Rightarrow> (Inl RequestException, s')
         | TokenResponse ok access_token \<Rightarrow>
             if \<not> ok then (Inl RuntimeError, s')
             else (case access_token of
                     None \<Rightarrow> (Inl RuntimeError, s')
                   | Some t \<Rightarrow> if t = [] then (Inl RuntimeError, s') else (Inr t, s')))"

text \<open>\<^verbatim>\<open>get_or_refresh_token\<close> (lines 139-147): a fetch only when the slot is empty.\<close>

definition get_or_refresh_token :: "world \<Rightarrow> client \<Rightarrow> (py_error + string) \<times> client" where
  "get_or_refresh_token w s =
     (case token_box s of
        Some t \<Rightarrow>
          if t \<noteq> [] then (Inr t, s)
          else (case get_access_token w s of
                  (Inl e, s') \<Rightarrow> (Inl e, s')
                | (Inr t', s') \<Rightarrow> (Inr t', s'\<lparr>token_box := Some t'\<rparr>))
      | None \<Rightarrow>
          (case get_access_token w s of
             (Inl e, s') \<Rightarrow> (Inl e, s')
           | (Inr t', s') \<Rightarrow> (Inr t', s'\<lparr>token_box := Some t'\<rparr>)))"

text \<open>
  The local \<^verbatim>\<open>do_request\<close> of both callers (lines 195-202 and 322-329): the token of
  the slot, then the request.
\<close>

definition do_request :: "world \<Rightarrow> request \<Rightarrow> client \<Rightarrow> (py_error + response) \<times> client" where
  "do_request w req s =
     (case get_or_refresh_token w s of
        (Inl e, s1) \<Rightarrow> (Inl e, s1)
      | (Inr access_token, s1) \<Rightarrow>
          (let r = api_reply w (api_calls (log s1));
               s2 = s1\<lparr>log := log s1 @ [ApiCall req access_token r]\<rparr>
           in case r of
                ConnectionFailed \<Rightarrow> (Inl RequestException, s2)
              | Response resp \<Rightarrow> (Inr resp, s2)))"

subsection \<open>Looking up an invoice\<close>

definition filter_expr :: "string \<Rightarrow> string" where
  "filter_expr wo_key =
     (if wo_key \<noteq> [] \<and> list_all is_digit wo_key
      then ''WoTrackingNumber eq '' @ wo_key
      else ''WoTrackingNumber eq '' @ [CHR 0x27] @ wo_key @ [CHR 0x27])"

definition cache_put :: "string \<Rightarrow> meta option \<Rightarrow> client \<Rightarrow> client" where
  "cache_put wo_key m s = s\<lparr>cache := (cache s)(wo_key \<mapsto> m)\<rparr>"

text \<open>Lines 226-251: what a lookup makes of the answer that is not a 401.\<close>

definition lookup_finish :: "string \<Rightarrow> response \<Rightarrow> client \<Rightarrow> (py_error + meta option) \<times> client" where
  "lookup_finish wo_key resp s =
     (if \<not> status_code resp < 400 then (Inr None, cache_put wo_key None s)
      else (case json_value resp of
              None \<Rightarrow> (Inl ValueError, s)
            | Some [] \<Rightarrow> (Inr None, cache_put wo_key None s)
            | Some (it # _) \<Rightarrow>
                (case item_id it of
                   None \<Rightarrow> (Inr None, cache_put wo_key None s)
                 | Some i \<Rightarrow>
                     (let m = \<lparr>meta_id = i, meta_trade = item_trade it,
                               meta_approval_code = item_approval_code it,
                               meta_number = item_number it\<rparr>
                      in (Inr (Some m), cache_put wo_key (Some m) s)))))"

text \<open>
  \<^verbatim>\<open>lookup_invoice_by_wo\<close> (lines 168-251). Only \<^verbatim>\<open>requests.RequestException\<close> is
  caught; any other exception leaves the function.
\<close>

definition lookup_invoice_by_wo :: "world \<Rightarrow> string \<Rightarrow> client \<Rightarrow> (py_error + meta option) \<times> client" where
  "lookup_invoice_by_wo w wo_number s =
     (let wo_key = strip wo_number in
      if wo_key = [] then (Inr None, s)
      else (case cache s wo_key of
              Some m \<Rightarrow> (Inr m, s)
            | None \<Rightarrow>
                (let req = LookupRequest (filter_expr wo_key) in
                 case do_request w req s of
                   (Inl e, s1) \<Rightarrow>
                     if e = RequestException then (Inr None, cache_put wo_key None s1)
                     else (Inl e, s1)
                 | (Inr resp, s1) \<Rightarrow>
                     if status_code resp = 401
                     then (case get_access_token w s1 of
                             (Inl e, s2) \<Rightarrow>
                               if e = RequestException then (Inr None, cache_put wo_key None s2)
                               else (Inl e, s2)
                           | (Inr t, s2) \<Rightarrow>
                               (case do_request w req (s2\<lparr>token_box := Some t\<rparr>) of
                                  (Inl e, s3) \<Rightarrow>
                                    if e = RequestException
                                    then (Inr None, cache_put wo_key None s3)
                                    else (Inl e, s3)
                                | (Inr resp2, s3) \<Rightarrow>
                                    if status_code resp2 = 401
                                    then (Inr None, cache_put wo_key None s3)
                                    else lookup_finish wo_key resp2 s3))
                     else lookup_finish wo_key resp s1)))"

subsection \<open>Approving an invoice\<close>

text \<open>
  \<^verbatim>\<open>(x or "").strip()\<close> on a cell of the sheet: a string is stripped, a zero is
  falsy and gives the empty string, and any other number (an empty cell is NaN, which
  is truthy) has no \<^verbatim>\<open>strip\<close>.
\<close>

definition or_empty_strip :: "cell \<Rightarrow> py_error + string" where
  "or_empty_strip c =
     (case c of
        CStr s \<Rightarrow> Inr (strip s)
      | CNum x \<Rightarrow> if x = Fin 0 then Inr [] else Inl AttributeError)"

text \<open>Lines 351-367: what an approval makes of the answer that is not a 401.\<close>

definition approve_finish :: "response \<Rightarrow> bool" where
  "approve_finish resp =
     (if status_code resp = 200 \<or> status_code resp = 204 then True
      else if status_code resp = 403 \<and> contains ''already had this status'' (resp_text resp) then True
      else False)"

text \<open>Lines 311-320: the approval code and the category that the request carries.\<close>

definition approve_request :: "int \<Rightarrow> string option \<Rightarrow> string \<Rightarrow> request" where
  "approve_request invoice_id approval_code cat =
     (let code = strip (case approval_code of None \<Rightarrow> [] | Some c \<Rightarrow> c);
          code_to_use = (if code = [] then APPROVAL_CODE_DEFAULT else code);
          category_to_use = (if upper cat = [] then CATEGORY_FALLBACK else upper cat)
      in ApproveRequest invoice_id code_to_use category_to_use)"

text \<open>\<^verbatim>\<open>approve_invoice\<close> (lines 300-367).\<close>

definition approve_invoice ::
  "world \<Rightarrow> client \<Rightarrow> int \<Rightarrow> cell \<Rightarrow> string option \<Rightarrow> (py_error + bool) \<times> client" where
  "approve_invoice w s invoice_id category approval_code =
     (case or_empty_strip category of
        Inl e \<Rightarrow> (Inl e, s)
      | Inr cat \<Rightarrow>
          (let req = approve_request invoice_id approval_code cat
           in case do_request w req s of
                (Inl e, s1) \<Rightarrow>
                  if e = RequestException then (Inr False, s1) else (Inl e, s1)
              | (Inr resp, s1) \<Rightarrow>
                  if status_code resp = 401
                  then (case get_access_token w s1 of
                          (Inl e, s2) \<Rightarrow>
                            if e = RequestException then (Inr False, s2) else (Inl e, s2)
                        | (Inr t, s2) \<Rightarrow>
                            (case do_request w req (s2\<lparr>token_box := Some t\<rparr>) of
                               (Inl e, s3) \<Rightarrow>
                                 if e = RequestException then (Inr False, s3)
                                 else (Inl e, s3)
                             | (Inr resp2, s3) \<Rightarrow>
                                 if status_code resp2 = 401 then (Inr False, s3)
                                 else (Inr (approve_finish resp2), s3)))
                  else (Inr (approve_finish resp), s1)))"

subsection \<open>The run\<close>

text \<open>
  \<^verbatim>\<open>load_rate_comps\<close> (lines 255-296). The sheet is none when the workbook has no
  sheet \<^verbatim>\<open>Rate_Comps\<close> to read.
\<close>

definition expected_cols :: "string list" where
  "expected_cols =
     [''Location ID'', ''W.O.#'', ''Category'', ''Trade'', ''Invoice Number'', ''Inv.Status'',
      ''Inv.Total'', ''Invoice Labor Amount'', ''Sales Tax'', ''Contracted Rate'',
      ''Rate Difference'', ''Approval.Status'']"

definition load_rate_comps :: "frame option \<Rightarrow> py_error + frame" where
  "load_rate_comps sheet =
     (case sheet of
        None \<Rightarrow> Inl ValueError
      | Some rc_df \<Rightarrow>
          if list_all (\<lambda>c. c \<in> set (columns rc_df)) expected_cols
          then Inr \<lparr>columns = expected_cols, rows = rows rc_df\<rparr>
          else Inl KeyError)"

text \<open>Lines 503-509: the rows to approve, by \<^verbatim>\<open>Approval.Status\<close> alone.\<close>

definition is_approved :: "pylib \<Rightarrow> (string \<Rightarrow> cell) \<Rightarrow> bool" where
  "is_approved P r = (upper (strip (astype_str P (r ''Approval.Status''))) = ''APPROVED'')"

text \<open>
  The loop of lines 545-583 over the rows to approve, with its two counters. An
  exception leaves the loop; a row that fails is counted and the loop goes on.
\<close>

fun process_rows ::
  "world \<Rightarrow> pylib \<Rightarrow> (string \<Rightarrow> cell) list \<Rightarrow> nat \<Rightarrow> nat \<Rightarrow> client
     \<Rightarrow> (py_error + nat \<times> nat) \<times> client" where
  "process_rows w P [] successes failures s = (Inr (successes, failures), s)"
| "process_rows w P (row # rest) successes failures s =
     (case or_empty_strip (row ''Trade'') of
        Inl e \<Rightarrow> (Inl e, s)
      | Inr trade_from_sheet \<Rightarrow>
          (case lookup_invoice_by_wo w (astype_str P (row ''W.O.#'')) s of
             (Inl e, s1) \<Rightarrow> (Inl e, s1)
           | (Inr None, s1) \<Rightarrow> process_rows w P rest successes (failures + 1) s1
           | (Inr (Some m), s1) \<Rightarrow>
               (case approve_invoice w s1 (meta_id m) (row ''Category'') (meta_approval_code m) of
                  (Inl e, s2) \<Rightarrow> (Inl e, s2)
                | (Inr ok, s2) \<Rightarrow>
                    if ok then process_rows w P rest (successes + 1) failures s2
                    else process_rows w P rest successes (failures + 1) s2)))"

text \<open>
  The body of the \<^verbatim>\<open>try\<close> of \<^verbatim>\<open>run_approvals\<close> (lines 488-590) with its handler
  (lines 592-595): the three counters as they stand when the body ends or an exception
  is caught, the exception caught, and the state of the client.
\<close>

record counts =
  approved_count :: nat
  failed_count :: nat
  review_count :: nat
  error_text :: "py_error option"
  final :: client

definition approvals_body :: "world \<Rightarrow> pylib \<Rightarrow> frame option \<Rightarrow> counts" where
  "approvals_body w P sheet =
     (let s0 = \<lparr>token_box = None, cache = Map.empty, log = []\<rparr> in
      case get_access_token w s0 of
        (Inl e, s1) \<Rightarrow>
          \<lparr>approved_count = 0, failed_count = 0, review_count = 0, error_text = Some e, final = s1\<rparr>
      | (Inr t, s1) \<Rightarrow>
          (let s2 = s1\<lparr>token_box := Some t\<rparr> in
           case load_rate_comps sheet of
             Inl e \<Rightarrow>
               \<lparr>approved_count = 0, failed_count = 0, review_count = 0, error_text = Some e,
                final = s2\<rparr>
           | Inr df \<Rightarrow>
               (let to_approve = filter (is_approved P) (rows df);
                    to_skip = filter (\<lambda>r. \<not> is_approved P r) (rows df);
                    review = length to_skip
                in if to_approve = []
                   then \<lparr>approved_count = 0, failed_count = 0, review_count = review,
                         error_text = None, final = s2\<rparr>
                   else (case process_rows w P to_approve 0 0 s2 of
                           (Inl e, s3) \<Rightarrow>
                             \<lparr>approved_count = 0, failed_count = 0, review_count = review,
                              error_text = Some e, final = s3\<rparr>
                         | (Inr (successes, failures), s3) \<Rightarrow>
                             \<lparr>approved_count = successes, failed_count = failures,
                              review_count = review, error_text = None, final = s3\<rparr>))))"

text \<open>
  \<^verbatim>\<open>send_status_email\<close> (lines 371-477). The environment of the notification: the
  variable \<^verbatim>\<open>GMAIL_ADDRESS\<close>, whether the Gmail service accepts the message (the
  token file is there and the API call succeeds; a failure is caught and printed), and
  whether the workbook to attach exists. The result is the message that was sent.
\<close>

record env =
  gmail_address :: "string option"
  gmail_delivers :: bool
  workbook_exists :: bool

record message =
  msg_from :: string
  msg_approved :: nat
  msg_failed :: nat
  msg_review :: nat
  msg_error :: "py_error option"
  msg_attachment :: "string option"

definition send_status_email ::
  "env \<Rightarrow> nat \<Rightarrow> nat \<Rightarrow> nat \<Rightarrow> py_error option \<Rightarrow> string \<Rightarrow> message option" where
  "send_status_email en approved failed review err attachment_path =
     (case gmail_address en of
        None \<Rightarrow> None
      | Some from_addr \<Rightarrow>
          if from_addr = [] then None
          else if gmail_delivers en
          then Some \<lparr>msg_from = from_addr, msg_approved = approved, msg_failed = failed,
                     msg_review = review, msg_error = err,
                     msg_attachment = (if attachment_path \<noteq> [] \<and> workbook_exists en
                                       then Some attachment_path else None)\<rparr>
          else None)"

text \<open>
  \<^verbatim>\<open>run_approvals\<close> (lines 481-605): the body, and in the \<^verbatim>\<open>finally\<close> block the
  status mail.
\<close>

definition run_approvals ::
  "world \<Rightarrow> env \<Rightarrow> pylib \<Rightarrow> string \<Rightarrow> frame option \<Rightarrow> counts \<times> message option" where
  "run_approvals w en P invoice_file sheet =
     (let c = approvals_body w P sheet
      in (c, send_status_email en (approved_count c) (failed_count c) (review_count c)
               (error_text c) invoice_file))"

subsection \<open>The guarded request, once\<close>

text \<open>
  The token that an answer of the token endpoint yields, if any.
\<close>

fun good_token :: "token_reply \<Rightarrow> string option" where
  "good_token (TokenResponse ok access_token) =
     (if ok then (case access_token of None \<Rightarrow> None | Some t \<Rightarrow> if t = [] then None else Some t)
      else None)"
| "good_token TokenConnectionFailed = None"

text \<open>
  Lines 204-224 of the lookup and lines 331-349 of the approval are the same code: the
  request, and on a 401 one new token and the request again. This is that code once,
  without the handlers; it is compared with both functions below.
\<close>

definition auth_guarded :: "world \<Rightarrow> request \<Rightarrow> client \<Rightarrow> (py_error + response) \<times> client" where
  "auth_guarded w req s =
     (case do_request w req s of
        (Inl e, s1) \<Rightarrow> (Inl e, s1)
      | (Inr resp, s1) \<Rightarrow>
          if status_code resp = 401
          then (case get_access_token w s1 of
                  (Inl e, s2) \<Rightarrow> (Inl e, s2)
                | (Inr t, s2) \<Rightarrow> do_request w req (s2\<lparr>token_box := Some t\<rparr>))
          else (Inr resp, s1))"

subsection \<open>Reading the log\<close>

text \<open>
  Whether an event is an API request that was answered with status 401, and whether
  every token fetch of a log comes directly after such an event (\<open>prev\<close> is the event
  before the log).
\<close>

fun answered_401 :: "event option \<Rightarrow> bool" where
  "answered_401 (Some (ApiCall _ _ (Response resp))) = (status_code resp = 401)"
| "answered_401 _ = False"

fun fetches_follow_401 :: "event option \<Rightarrow> event list \<Rightarrow> bool" where
  "fetches_follow_401 prev [] = True"
| "fetches_follow_401 prev (e # es) =
     ((is_api_call e \<or> answered_401 prev) \<and> fetches_follow_401 (Some e) es)"

text \<open>The token that the fetches of a log leave in a slot.\<close>

fun slot_after :: "string option \<Rightarrow> event list \<Rightarrow> string option" where
  "slot_after slot [] = slot"
| "slot_after slot (TokenFetch r # es) =
     slot_after (case good_token r of None \<Rightarrow> slot | Some t \<Rightarrow> Some t) es"
| "slot_after slot (ApiCall _ _ _ # es) = slot_after slot es"

text \<open>
  A step of the client from a state that holds a token: the log grows by events among
  which every token fetch follows a 401, the slot holds what the fetches left in it,
  and it still holds a token.
\<close>

definition has_token :: "client \<Rightarrow> bool" where
  "has_token s = (case token_box s of None \<Rightarrow> False | Some t \<Rightarrow> t \<noteq> [])"

definition extends :: "client \<Rightarrow> client \<Rightarrow> bool" where
  "extends s s' \<longleftrightarrow>
     has_token s' \<and>
     (\<exists>ext. log s' = log s @ ext \<and> fetches_follow_401 None ext
            \<and> token_box s' = slot_after (token_box s) ext)"

section \<open>Example runs\<close>

text \<open>
  A world that answers from two scripts and fails every request after their ends, and
  a Rate_Comps sheet of four rows: two to approve (one of them written with blanks
  and in lower case), one for review, one without a status.
\<close>

definition scripted :: "reply list \<Rightarrow> token_reply list \<Rightarrow> world" where
  "scripted rs ts =
     \<lparr>api_reply = (\<lambda>n. if n < length rs then rs ! n else ConnectionFailed),
      token_reply_at = (\<lambda>n. if n < length ts then ts ! n else TokenConnectionFailed)\<rparr>"

definition status_reply :: "nat \<Rightarrow> string \<Rightarrow> reply" where
  "status_reply code body = Response \<lparr>status_code = code, resp_text = body, json_value = None\<rparr>"

definition found_reply :: "int \<Rightarrow> reply" where
  "found_reply i =
     Response \<lparr>status_code = 200, resp_text = [],
               json_value = Some [\<lparr>item_id = Some i, item_trade = Some ''LANDSCAPING'',
                                   item_approval_code = None, item_number = None\<rparr>]\<rparr>"

definition sheet_row :: "string \<Rightarrow> cell \<Rightarrow> string \<Rightarrow> cell" where
  "sheet_row wo st =
     (\<lambda>_. CNum NaN)
       (''W.O.#'' := CStr wo, ''Category'' := CStr ''Maintenance'', ''Trade'' := CStr ''LANDSCAPING'',
        ''Approval.Status'' := st)"

definition example_sheet :: frame where
  "example_sheet =
     \<lparr>columns = expected_cols,
      rows = [sheet_row ''5001'' (CStr ''Approved''), sheet_row ''5002'' (CStr '' approved ''),
              sheet_row ''5003'' (CStr ''Review''), sheet_row ''5004'' (CNum NaN)]\<rparr>"

definition example_env :: env where
  "example_env = \<lparr>gmail_address = Some ''bot@example.org'', gmail_delivers = True,
                   workbook_exists = True\<rparr>"

section \<open>The contract of the guarded request\<close>

text \<open>
  The exception that a result stands for, if any.
\<close>

fun raised_by :: "py_error + 'a \<Rightarrow> py_error option" where
  "raised_by (Inl e) = Some e"
| "raised_by (Inr _) = None"

text \<open>
  What the specification says of a request \<open>req\<close> that is issued from the state \<open>s\<close>
  with the token \<open>t\<close> in the slot and ends in the state \<open>s'\<close>, written on the log:
  \<^item> an answer other than a 401 (or no answer at all): that one request, no token fetch;
  \<^item> a 401 and a token fetch that yields a token: exactly one fetch and exactly one
    more request, sent with the new token, which is then in the slot; a second 401
    fails the row and raises nothing;
  \<^item> a 401 and a token fetch that yields no token: that one fetch and no second
    request; the row fails when the fetch could not connect, and RuntimeError is
    raised otherwise.
\<close>

definition retry_contract ::
  "world \<Rightarrow> request \<Rightarrow> string \<Rightarrow> client \<Rightarrow> client \<Rightarrow> bool \<Rightarrow> py_error option \<Rightarrow> bool" where
  "retry_contract w req t s s' row_failed raised \<longleftrightarrow>
     (let r1 = api_reply w (api_calls (log s));
          tr = token_reply_at w (token_fetches (log s));
          r2 = api_reply w (api_calls (log s) + 1)
      in ((\<forall>resp. r1 = Response resp \<longrightarrow> status_code resp \<noteq> 401) \<longrightarrow>
             log s' = log s @ [ApiCall req t r1] \<and> token_box s' = Some t)
       \<and> (\<forall>resp t'. r1 = Response resp \<and> status_code resp = 401 \<and> good_token tr = Some t' \<longrightarrow>
             log s' = log s @ [ApiCall req t r1, TokenFetch tr, ApiCall req t' r2]
           \<and> token_box s' = Some t'
           \<and> (\<forall>resp2. r2 = Response resp2 \<and> status_code resp2 = 401 \<longrightarrow>
                 row_failed \<and> raised = None))
       \<and> (\<forall>resp. r1 = Response resp \<and> status_code resp = 401 \<and> good_token tr = None \<longrightarrow>
             log s' = log s @ [ApiCall req t r1, TokenFetch tr]
           \<and> token_box s' = Some t
           \<and> (if tr = TokenConnectionFailed then row_failed \<and> raised = None
               else raised = Some RuntimeError)))"

text \<open>
  The client as it is after the first token of a run, and a world whose API answers
  401 twice while its token endpoint hands out tokens.
\<close>

definition example_client :: client where
  "example_client =
     \<lparr>token_box = Some ''T1'', cache = Map.empty,
      log = [TokenFetch (TokenResponse True (Some ''T1''))]\<rparr>"

definition unauthorized_world :: world where
  "unauthorized_world =
     scripted [status_reply 401 [], status_reply 401 []]
              [TokenResponse True (Some ''T1''), TokenResponse True (Some ''T2'')]"

text \<open>The token of the slot, empty when there is none.\<close>

definition slot_token :: "client \<Rightarrow> string" where
  "slot_token s = (case token_box s of None \<Rightarrow> [] | Some t \<Rightarrow> t)"

text \<open>
  A world for a whole run over the example sheet: the first work order is found, its
  approval is answered 401 and, after a new token, 200; the second work order is
  found and its approval is answered 500.
\<close>

definition example_world :: world where
  "example_world =
     scripted [found_reply 7, status_reply 401 [], status_reply 200 [],
               found_reply 8, status_reply 500 []]
              [TokenResponse True (Some ''T1''), TokenResponse True (Some ''T2'')]"

section \<open>A concrete instance of the conversions\<close>

text \<open>
  To run the model on concrete sheets the two library conversions are instantiated on
  plain decimal text: an optional minus sign, digits, and optionally a point followed
  by digits parse to their value, everything else fails to parse; a missing value is
  formatted as \<^verbatim>\<open>nan\<close> and an integral value with one decimal, as Python does.
\<close>

definition parse_decimal :: "string \<Rightarrow> pyfloat option" where
  "parse_decimal s =
     (let (neg, t) = (case s of c # cs \<Rightarrow> if c = CHR ''-'' then (True, cs) else (False, s)
                               | [] \<Rightarrow> (False, s));
          ip = takeWhile is_digit t;
          rest = dropWhile is_digit t;
          sgn = (if neg then - 1 else 1 :: rat)
      in if ip = [] then None
         else (case rest of
                 [] \<Rightarrow> Some (Fin (sgn * of_nat (digits_value ip)))
               | c # fp \<Rightarrow>
                   if c = CHR ''.'' \<and> list_all is_digit fp
                   then Some (Fin (sgn * (of_nat (digits_value ip)
                                          + of_nat (digits_value fp) / 10 ^ length fp)))
                   else None))"

function digits_of :: "nat \<Rightarrow> string" where
  "digits_of n =
     (if n < 10 then [char_of (48 + n)]
      else digits_of (n div 10) @ [char_of (48 + n mod 10)])"
  by pat_completeness auto
termination
  by (relation "measure id") auto

definition format_float :: "pyfloat \<Rightarrow> string" where
  "format_float x =
     (case x of
        Fin q \<Rightarrow>
          (if q = of_int \<lfloor>q\<rfloor>
           then (if q < 0 then ''-'' else []) @ digits_of (nat \<bar>\<lfloor>q\<rfloor>\<bar>) @ ''.0''
           else ''nan'')
      | PInf \<Rightarrow> ''inf''
      | NInf \<Rightarrow> ''-inf''
      | NaN \<Rightarrow> ''nan'')"

definition decimal_lib :: pylib where
  "decimal_lib = \<lparr>parse_float = parse_decimal, str_float = format_float\<rparr>"

section \<open>Properties of the approval decision\<close>


section \<open>Properties of the Rate_Comps sheet\<close>

subsection \<open>The helper columns never reach the output\<close>

lemma first_present_Some:
  "first_present cols cs = Some c \<Longrightarrow> c \<in> set cs \<and> c \<in> set cols"
  by (induction cs) (auto split: if_splits)

lemma select_cols_cong:
  "(\<And>cand. cand \<in> snd ` set cs \<Longrightarrow> first_present cols' cand = first_present cols cand)
   \<Longrightarrow> select_cols cols' cs = select_cols cols cs"
proof (induction cs)
  case Nil
  then show ?case by simp
next
  case (Cons a cs)
  obtain n cand where a: "a = (n, cand)" by (cases a)
  have 1: "first_present cols' cand = first_present cols cand"
    using Cons.prems [of cand] a by simp
  have 2: "select_cols cols' cs = select_cols cols cs"
    by (rule Cons.IH) (simp add: Cons.prems)
  show ?case by (simp add: a 1 2 split: option.splits)
qed

lemma select_cols_map_of:
  "select_cols cols cs = Inr sel \<Longrightarrow> distinct (map fst cs) \<Longrightarrow> (n, cand) \<in> set cs
   \<Longrightarrow> map_of sel n = first_present cols cand"
proof (induction cs arbitrary: sel)
  case Nil
  then show ?case by simp
next
  case (Cons a cs)
  obtain m cand' where a: "a = (m, cand')" by (cases a)
  from Cons.prems(1) a obtain c sel' where
    c: "first_present cols cand' = Some c" and
    sel': "select_cols cols cs = Inr sel'" and
    sel: "sel = (m, c) # sel'"
    by (auto split: option.splits sum.splits)
  show ?case
  proof (cases "(n, cand) = (m, cand')")
    case True
    then show ?thesis using c sel by simp
  next
    case False
    then have mem: "(n, cand) \<in> set cs" using Cons.prems(3) a by auto
    then have "n \<in> fst ` set cs" by force
    then have "n \<noteq> m" using Cons.prems(2) a by auto
    moreover have "map_of sel' n = first_present cols cand"
      using Cons.IH [OF sel' _ mem] Cons.prems(2) by simp
    ultimately show ?thesis using sel by simp
  qed
qed

lemma first_present_assign:
  "h \<notin> set cs \<or> (\<exists>c cs'. cs = c # cs' \<and> c \<in> set (columns df))
   \<Longrightarrow> first_present (columns (assign h f df)) cs = first_present (columns df) cs"
proof (erule disjE)
  assume "h \<notin> set cs"
  then show ?thesis by (induction cs) (auto simp: assign_def)
next
  assume "\<exists>c cs'. cs = c # cs' \<and> c \<in> set (columns df)"
  then show ?thesis by (auto simp: assign_def)
qed

lemma distinct_out_names: "distinct (map fst col_candidates)"
  by (simp add: col_candidates_def)


lemma select_cols_defined:
  "select_cols cols cs = Inr sel \<Longrightarrow> (n, cand) \<in> set cs \<Longrightarrow> first_present cols cand \<noteq> None"
  by (induction cs arbitrary: sel) (auto split: option.splits sum.splits)

lemma selected_first_present:
  assumes s: "select_cols cols col_candidates = Inr sel" and m: "(n, cand) \<in> set col_candidates"
  shows "first_present cols cand = Some (selected sel n)"
proof -
  have eq: "map_of sel n = first_present cols cand"
    by (rule select_cols_map_of [OF s distinct_out_names m])
  obtain c where c: "first_present cols cand = Some c"
    using select_cols_defined [OF s m] by auto
  show ?thesis using eq c by (simp add: selected_def)
qed

lemma rate_comps_row_cong:
  assumes "\<And>n. n \<in> fst ` set col_candidates \<Longrightarrow> r' (selected sel n) = r (selected sel n)"
  shows "rate_comps_row P rm sel r' = rate_comps_row P rm sel r"
proof -
  have "r' (selected sel ''Location ID'') = r (selected sel ''Location ID'')"
       "r' (selected sel ''W.O.#'') = r (selected sel ''W.O.#'')"
       "r' (selected sel ''Category'') = r (selected sel ''Category'')"
       "r' (selected sel ''Trade'') = r (selected sel ''Trade'')"
       "r' (selected sel ''Invoice Number'') = r (selected sel ''Invoice Number'')"
       "r' (selected sel ''Inv.Status'') = r (selected sel ''Inv.Status'')"
       "r' (selected sel ''Inv.Total'') = r (selected sel ''Inv.Total'')"
       "r' (selected sel ''Invoice Labor Amount'') = r (selected sel ''Invoice Labor Amount'')"
       "r' (selected sel ''Sales Tax'') = r (selected sel ''Sales Tax'')"
    by (rule assms, simp add: col_candidates_def)+
  then show ?thesis unfolding rate_comps_row_def by simp
qed

lemma hidden_first_present:
  assumes "hidden h (columns df)" "cand \<in> snd ` set col_candidates"
  shows "first_present (columns (assign h f df)) cand = first_present (columns df) cand"
  using assms unfolding hidden_def
  by (intro first_present_assign) blast

lemma hidden_selected:
  assumes h: "hidden h cols" and s: "select_cols cols col_candidates = Inr sel"
    and n: "n \<in> fst ` set col_candidates"
  shows "selected sel n \<noteq> h"
proof -
  from n obtain cand where m: "(n, cand) \<in> set col_candidates" by force
  have fp: "first_present cols cand = Some (selected sel n)"
    by (rule selected_first_present [OF s m])
  from m have "cand \<in> snd ` set col_candidates" by force
  with h have "h \<notin> set cand \<or> (\<exists>c cs'. cand = c # cs' \<and> c \<in> set cols \<and> c \<noteq> h)"
    unfolding hidden_def by blast
  then show ?thesis
  proof
    assume "h \<notin> set cand"
    then show ?thesis using first_present_Some [OF fp] by auto
  next
    assume "\<exists>c cs'. cand = c # cs' \<and> c \<in> set cols \<and> c \<noteq> h"
    then show ?thesis using fp by auto
  qed
qed

lemma rate_comps_of_assign:
  assumes h: "hidden h (columns df)"
  shows "rate_comps_of P rm (assign h f df) = rate_comps_of P rm df"
proof -
  have sel_eq: "select_cols (columns (assign h f df)) col_candidates
                = select_cols (columns df) col_candidates"
    by (rule select_cols_cong) (rule hidden_first_present [OF h])
  show ?thesis
  proof (cases "select_cols (columns df) col_candidates")
    case (Inl e)
    then show ?thesis by (simp add: rate_comps_of_def sel_eq)
  next
    case (Inr sel)
    have "rate_comps_row P rm sel (r(h := v)) = rate_comps_row P rm sel r" for r v
      by (rule rate_comps_row_cong) (simp add: hidden_selected [OF h Inr])
    then have "map (rate_comps_row P rm sel) (rows (assign h f df))
               = map (rate_comps_row P rm sel) (rows df)"
      by (simp add: assign_def comp_def)
    then show ?thesis by (simp add: rate_comps_of_def sel_eq Inr)
  qed
qed

lemma hidden_labor:
  "''Invoice Labor Amount'' \<in> set cols \<Longrightarrow> hidden ''__Inv.LaborOnly'' cols"
  by (simp add: hidden_def col_candidates_def)

lemma hidden_amount:
  "''Invoice Amount'' \<in> set cols \<Longrightarrow> hidden ''__InvoiceAmount'' cols"
  by (simp add: hidden_def col_candidates_def)

lemma hidden_tax:
  "''Invoice Tax Amount'' \<in> set cols \<Longrightarrow> hidden ''__SalesTax'' cols"
  by (simp add: hidden_def col_candidates_def)

lemma columns_assign: "set (columns (assign h f df)) = insert h (set (columns df))"
  by (auto simp: assign_def)

lemma build_rate_comps_eq:
  "build_rate_comps P inv_df land =
     (if ''Invoice Tax Amount'' \<notin> set (columns inv_df) \<or> ''Invoice Tax2 Amount'' \<notin> set (columns inv_df)
      then Inl AttributeError
      else rate_comps_of P (rate_map P land) inv_df)"
  by (simp add: build_rate_comps_def tax_helper_def amount_helper_def labor_helper_def
      columns_assign rate_comps_of_assign hidden_labor hidden_amount hidden_tax)


lemma rate_comps_row_fields:
  "rate_comps_row P rm sel r ''Location ID'' = r (selected sel ''Location ID'')"
  "rate_comps_row P rm sel r ''W.O.#'' = r (selected sel ''W.O.#'')"
  "rate_comps_row P rm sel r ''Category'' = r (selected sel ''Category'')"
  "rate_comps_row P rm sel r ''Trade'' = r (selected sel ''Trade'')"
  "rate_comps_row P rm sel r ''Invoice Number'' = r (selected sel ''Invoice Number'')"
  "rate_comps_row P rm sel r ''Inv.Status'' = r (selected sel ''Inv.Status'')"
  "rate_comps_row P rm sel r ''Inv.Total'' = CNum (clean_numeric P (r (selected sel ''Inv.Total'')))"
  "rate_comps_row P rm sel r ''Invoice Labor Amount'' =
     CNum (clean_numeric P (r (selected sel ''Invoice Labor Amount'')))"
  "rate_comps_row P rm sel r ''Sales Tax'' = CNum (clean_numeric P (r (selected sel ''Sales Tax'')))"
  "rate_comps_row P rm sel r ''Contracted Rate'' =
     CNum (map_rate rm (r (selected sel ''Location ID'')))"
  "rate_comps_row P rm sel r ''Rate Difference'' =
     CNum (fsub (clean_numeric P (r (selected sel ''Inv.Total'')))
                (map_rate rm (r (selected sel ''Location ID''))))"
  "rate_comps_row P rm sel r ''Approval.Status'' =
     CStr (decide_approval (fsub (clean_numeric P (r (selected sel ''Inv.Total'')))
                                 (map_rate rm (r (selected sel ''Location ID'')))))"
  by (simp_all add: rate_comps_row_def Let_def)

lemma foldl_upd_other:
  "\<forall>r \<in> set xs. key r \<noteq> k \<Longrightarrow> foldl (\<lambda>m r. m(key r \<mapsto> val r)) m xs k = m k"
  by (induction xs arbitrary: m) auto

lemma rate_map_last:
  assumes "\<forall>r' \<in> set later. location_id P (center r') \<noteq> location_id P (center r)"
  shows "rate_map P (earlier @ r # later) (location_id P (center r)) = Some (contracted_rate r)"
  using foldl_upd_other [where key = "\<lambda>r. location_id P (center r)" and val = contracted_rate, OF assms]
  by (simp add: rate_map_def)

lemma build_rate_comps_Inr:
  assumes "build_rate_comps P inv_df land = Inr out"
  obtains sel where "select_cols (columns inv_df) col_candidates = Inr sel"
    and "out = \<lparr>columns = rate_comps_columns,
                 rows = map (rate_comps_row P (rate_map P land) sel) (rows inv_df)\<rparr>"
    and "''Invoice Tax Amount'' \<in> set (columns inv_df)"
    and "''Invoice Tax2 Amount'' \<in> set (columns inv_df)"
  using assms
  by (auto simp: build_rate_comps_eq rate_comps_of_def split: if_splits sum.splits)

lemma selected_sales_tax:
  assumes "select_cols cols col_candidates = Inr sel" "''Invoice Tax Amount'' \<in> set cols"
  shows "selected sel ''Sales Tax'' = ''Invoice Tax Amount''"
proof -
  have "first_present cols [''Invoice Tax Amount'', ''__SalesTax'', ''Sales Tax'']
        = Some (selected sel ''Sales Tax'')"
    by (rule selected_first_present [OF assms(1)]) (simp add: col_candidates_def)
  then show ?thesis using assms(2) by simp
qed


lemma isna_iff: "isna x \<longleftrightarrow> x = NaN"
  by (cases x) simp_all

lemma fsub_NaN: "fsub NaN x = NaN" "fsub x NaN = NaN"
  by (cases x; simp add: fsub_def)+

lemma decide_approval_NaN: "decide_approval NaN = ''Review''"
  by (simp add: decide_approval_def)

lemma map_rate_int: "map_rate rm (CNum (Fin (of_int k))) = (case rm (Some k) of Some v \<Rightarrow> v | None \<Rightarrow> NaN)"
  by (simp add: map_rate_def)

lemma cell_at_build:
  assumes "cell_at (build_rate_comps P inv_df land) i n = Some v"
  shows "\<exists>sel. select_cols (columns inv_df) col_candidates = Inr sel
           \<and> i < length (rows inv_df)
           \<and> (\<forall>m. cell_at (build_rate_comps P inv_df land) i m
                    = Some (rate_comps_row P (rate_map P land) sel (rows inv_df ! i) m))
           \<and> ''Invoice Tax Amount'' \<in> set (columns inv_df)"
proof (cases "build_rate_comps P inv_df land")
  case (Inl e)
  then show ?thesis using assms by (simp add: cell_at_def)
next
  case (Inr out)
  from Inr obtain sel where sel: "select_cols (columns inv_df) col_candidates = Inr sel"
    and out: "out = \<lparr>columns = rate_comps_columns,
                 rows = map (rate_comps_row P (rate_map P land) sel) (rows inv_df)\<rparr>"
    and tax: "''Invoice Tax Amount'' \<in> set (columns inv_df)"
    by (rule build_rate_comps_Inr)
  have i: "i < length (rows inv_df)"
    using assms Inr out by (simp add: cell_at_def split: if_splits)
  show ?thesis
    using sel i tax by (simp add: Inr out cell_at_def)
qed

subsection \<open>The example sheets, evaluated\<close>

lemma parse_examples:
  "parse_decimal ''1000.00'' = Some (Fin 1000)"
  "parse_decimal ''994.99'' = Some (Fin (99499 / 100))"
  "parse_decimal ''900.00'' = Some (Fin 900)"
  "parse_decimal ''0.00'' = Some (Fin 0)"
  "parse_decimal ''n/a'' = None"
  "parse_decimal ''TBD'' = None"
  by (simp_all add: parse_decimal_def is_digit_def digits_value_def)

lemma location_examples:
  "location_id decimal_lib (CStr ''Center 100 - North'') = Some 100"
  "location_id decimal_lib (CStr ''Center 200 - South'') = Some 200"
  "location_id decimal_lib (CStr ''Center 300 - East'') = Some 300"
  by (simp_all add: location_id_def astype_str_def extract_digits_def is_digit_def digits_value_def)

lemma example_select:
  "select_cols (columns example_invoice) col_candidates = Inr example_selection"
  by (simp add: example_invoice_def col_candidates_def example_selection_def)

lemma example_selected:
  "selected example_selection ''Location ID'' = ''Location ID''"
  "selected example_selection ''W.O.#'' = ''WO Tracking Number''"
  "selected example_selection ''Inv.Total'' = ''Invoice Amount''"
  "selected example_selection ''Invoice Labor Amount'' = ''Invoice Labor Amount''"
  "selected example_selection ''Sales Tax'' = ''Invoice Tax Amount''"
  by (simp_all add: selected_def example_selection_def)

lemma example_cell:
  "i < 4 \<Longrightarrow>
   cell_at (build_rate_comps decimal_lib example_invoice example_contract) i m =
     Some (rate_comps_row decimal_lib (rate_map decimal_lib example_contract) example_selection
             (rows example_invoice ! i) m)"
proof -
  assume i: "i < 4"
  have tax: "''Invoice Tax Amount'' \<in> set (columns example_invoice)"
            "''Invoice Tax2 Amount'' \<in> set (columns example_invoice)"
    by (simp_all add: example_invoice_def)
  have len: "length (rows example_invoice) = 4"
    by (simp add: example_invoice_def)
  show ?thesis
    using i by (simp add: build_rate_comps_eq tax rate_comps_of_def example_select cell_at_def len)
qed

lemma example_rate_map:
  "rate_map decimal_lib example_contract (Some 100) = Some (Fin 1000)"
  "rate_map decimal_lib example_contract (Some 200) = Some (Fin 1000)"
  "rate_map decimal_lib example_contract (Some 300) = Some NaN"
  by (simp_all add: rate_map_def example_contract_def location_examples contracted_rate_def)

lemma example_rows:
  "(rows example_invoice ! 0) ''Location ID'' = CNum (Fin 100)"
  "(rows example_invoice ! 0) ''Invoice Amount'' = CStr ''1,000.00''"
  "(rows example_invoice ! 0) ''Invoice Tax Amount'' = CStr ''n/a''"
  "(rows example_invoice ! 0) ''WO Tracking Number'' = CNum (Fin 5001)"
  "(rows example_invoice ! 2) ''Location ID'' = CNum (Fin 300)"
  "(rows example_invoice ! 2) ''Invoice Amount'' = CStr ''900.00''"
  "(rows example_invoice ! 3) ''Location ID'' = CNum (Fin 100)"
  "(rows example_invoice ! 3) ''Invoice Amount'' = CStr ''TBD''"
  by (simp_all add: example_invoice_def)

lemma example_clean_numeric:
  "clean_numeric decimal_lib (CStr ''1,000.00'') = Fin 1000"
  "clean_numeric decimal_lib (CStr ''900.00'') = Fin 900"
  "clean_numeric decimal_lib (CStr ''n/a'') = NaN"
  "clean_numeric decimal_lib (CStr ''TBD'') = NaN"
  by (simp_all add: clean_numeric_def to_numeric_def astype_str_def remove_commas_def decimal_lib_def
      parse_examples)

subsection \<open>The contracted rate\<close>

text \<open>
  C2. The contracted rate of a contract row is its monthly rate when that is present;
  otherwise seasonal rate / billing months when both are present (float division, so
  a finite quotient when the months are not zero); otherwise missing. The three
  stated examples hold. When the rate of a row is missing and no later row of the
  sheet has the same location, every invoice row of that location gets a missing
  contracted rate and the status Review.
\<close>

theorem contracted_rate_derivation:
  "contracted_rate r =
     (if \<not> isna (monthly r) then monthly r
      else if \<not> isna (seasonal r) \<and> \<not> isna (billing_months r)
           then fdiv (seasonal r) (billing_months r)
           else NaN)
   \<and> (\<forall>s m. m \<noteq> 0 \<longrightarrow> fdiv (Fin s) (Fin m) = Fin (s / m))
   \<and> contracted_rate \<lparr>center = c, monthly = Fin 1000, seasonal = NaN, billing_months = b\<rparr> = Fin 1000
   \<and> contracted_rate \<lparr>center = c, monthly = NaN, seasonal = Fin 6000, billing_months = Fin 12\<rparr> = Fin 500
   \<and> contracted_rate \<lparr>center = c, monthly = NaN, seasonal = NaN, billing_months = b\<rparr> = NaN
   \<and> (isna (contracted_rate r) \<and> location_id P (center r) = Some k
        \<and> (\<forall>r' \<in> set later. location_id P (center r') \<noteq> Some k)
        \<and> cell_at (build_rate_comps P inv_df (earlier @ r # later)) i ''Location ID''
            = Some (CNum (Fin (of_int k)))
      \<longrightarrow> cell_at (build_rate_comps P inv_df (earlier @ r # later)) i ''Contracted Rate''
            = Some (CNum NaN)
        \<and> cell_at (build_rate_comps P inv_df (earlier @ r # later)) i ''Approval.Status''
            = Some (CStr ''Review''))"
proof -
  have formula: "contracted_rate r =
     (if \<not> isna (monthly r) then monthly r
      else if \<not> isna (seasonal r) \<and> \<not> isna (billing_months r)
           then fdiv (seasonal r) (billing_months r)
           else NaN)"
    by (simp add: contracted_rate_def isna_iff)
  have examples:
    "contracted_rate \<lparr>center = c, monthly = Fin 1000, seasonal = NaN, billing_months = b\<rparr> = Fin 1000"
    "contracted_rate \<lparr>center = c, monthly = NaN, seasonal = Fin 6000, billing_months = Fin 12\<rparr> = Fin 500"
    "contracted_rate \<lparr>center = c, monthly = NaN, seasonal = NaN, billing_months = b\<rparr> = NaN"
    by (simp_all add: contracted_rate_def)
  have downstream:
    "cell_at (build_rate_comps P inv_df (earlier @ r # later)) i ''Contracted Rate'' = Some (CNum NaN)
     \<and> cell_at (build_rate_comps P inv_df (earlier @ r # later)) i ''Approval.Status''
         = Some (CStr ''Review'')"
    if na: "isna (contracted_rate r)" and k: "location_id P (center r) = Some k"
      and later: "\<forall>r' \<in> set later. location_id P (center r') \<noteq> Some k"
      and loc: "cell_at (build_rate_comps P inv_df (earlier @ r # later)) i ''Location ID''
                = Some (CNum (Fin (of_int k)))"
  proof -
    let ?land = "earlier @ r # later"
    from cell_at_build [OF loc] obtain sel where
      cells: "\<And>m. cell_at (build_rate_comps P inv_df ?land) i m
                = Some (rate_comps_row P (rate_map P ?land) sel (rows inv_df ! i) m)"
      by blast
    have src: "(rows inv_df ! i) (selected sel ''Location ID'') = CNum (Fin (of_int k))"
      using loc by (simp add: cells rate_comps_row_fields)
    have "rate_map P ?land (Some k) = Some (contracted_rate r)"
      using rate_map_last [of later P r earlier] later k by simp
    then have rate: "map_rate (rate_map P ?land) (CNum (Fin (of_int k))) = NaN"
      using na by (simp add: map_rate_int isna_iff)
    show ?thesis
      by (simp add: cells rate_comps_row_fields src rate fsub_NaN decide_approval_NaN)
  qed
  show ?thesis
    using formula examples downstream by simp
qed


theorem contracted_rate_derivation_witness:
  "isna (contracted_rate \<lparr>center = CStr ''Center 300 - East'', monthly = NaN, seasonal = NaN,
                           billing_months = Fin 6\<rparr>)
   \<and> location_id decimal_lib (CStr ''Center 300 - East'') = Some 300
   \<and> cell_at (build_rate_comps decimal_lib example_invoice example_contract) 2 ''Location ID''
       = Some (CNum (Fin 300))
   \<and> cell_at (build_rate_comps decimal_lib example_invoice example_contract) 2 ''Contracted Rate''
       = Some (CNum NaN)
   \<and> cell_at (build_rate_comps decimal_lib example_invoice example_contract) 2 ''Approval.Status''
       = Some (CStr ''Review'')
   \<and> fdiv (Fin 6000) (Fin 12) = Fin 500"
proof -
  let ?r = "\<lparr>center = CStr ''Center 300 - East'', monthly = NaN, seasonal = NaN,
             billing_months = Fin 6\<rparr>"
  let ?earlier = "[\<lparr>center = CStr ''Center 100 - North'', monthly = Fin 1000, seasonal = NaN,
                    billing_months = NaN\<rparr>,
                   \<lparr>center = CStr ''Center 200 - South'', monthly = NaN, seasonal = Fin 6000,
                    billing_months = Fin 6\<rparr>]"
  have split: "example_contract = ?earlier @ ?r # []"
    by (simp add: example_contract_def)
  have na: "isna (contracted_rate ?r)"
    by (simp add: contracted_rate_def)
  have k: "location_id decimal_lib (center ?r) = Some 300"
    by (simp add: location_examples)
  have loc: "cell_at (build_rate_comps decimal_lib example_invoice (?earlier @ ?r # [])) 2
               ''Location ID'' = Some (CNum (Fin (of_int 300)))"
    unfolding split [symmetric]
    by (simp add: example_cell rate_comps_row_fields example_selected example_rows)
  note inst = contracted_rate_derivation
    [where r = ?r and P = decimal_lib and k = 300 and later = "[]" and earlier = ?earlier
       and i = 2 and inv_df = example_invoice]
  from inst na k loc have
    "cell_at (build_rate_comps decimal_lib example_invoice (?earlier @ ?r # [])) 2
       ''Contracted Rate'' = Some (CNum NaN)
     \<and> cell_at (build_rate_comps decimal_lib example_invoice (?earlier @ ?r # [])) 2
       ''Approval.Status'' = Some (CStr ''Review'')"
    by simp
  moreover from inst have "fdiv (Fin 6000) (Fin 12) = Fin (6000 / 12)"
    by simp
  ultimately show ?thesis
    using na k loc unfolding split [symmetric] by simp
qed

subsection \<open>The money columns\<close>

lemma clean_numeric_parse:
  "clean_numeric P c = (case parse_float P (remove_commas (astype_str P c)) of None \<Rightarrow> NaN | Some x \<Rightarrow> x)"
  by (simp add: clean_numeric_def to_numeric_def)

text \<open>
  C5 (as amended). In every row of the Rate_Comps output the invoice total, the labor
  amount and the sales tax are the source cells (raw columns of the invoice report,
  never a helper column) turned into text, freed of commas and parsed; a value that
  does not parse is missing, not zero. The decision is a function of the normalised
  total and the contracted rate alone: a missing total gives Review, and no error is
  raised for a missing value.
\<close>

theorem money_columns_normalized:
  "(\<forall>c. clean_numeric P c =
         (case parse_float P (remove_commas (astype_str P c)) of None \<Rightarrow> NaN | Some x \<Rightarrow> x))
   \<and> (\<forall>c. parse_float P (remove_commas (astype_str P c)) = None
          \<longrightarrow> clean_numeric P c = NaN \<and> clean_numeric P c \<noteq> Fin 0)
   \<and> (cell_at (build_rate_comps P inv_df land) i ''Approval.Status'' = Some st \<longrightarrow>
        (\<exists>ct cl rate.
           first_present (columns inv_df)
             [''Invoice Amount'', ''__InvoiceAmount'', ''Inv.Total'', ''Inv.Total ''] = Some ct
         \<and> first_present (columns inv_df) [''Invoice Labor Amount'', ''__Inv.LaborOnly''] = Some cl
         \<and> cell_at (build_rate_comps P inv_df land) i ''Inv.Total''
             = Some (CNum (clean_numeric P ((rows inv_df ! i) ct)))
         \<and> cell_at (build_rate_comps P inv_df land) i ''Invoice Labor Amount''
             = Some (CNum (clean_numeric P ((rows inv_df ! i) cl)))
         \<and> cell_at (build_rate_comps P inv_df land) i ''Sales Tax''
             = Some (CNum (clean_numeric P ((rows inv_df ! i) ''Invoice Tax Amount'')))
         \<and> cell_at (build_rate_comps P inv_df land) i ''Contracted Rate'' = Some (CNum rate)
         \<and> st = CStr (decide_approval (fsub (clean_numeric P ((rows inv_df ! i) ct)) rate))
         \<and> (isna (clean_numeric P ((rows inv_df ! i) ct)) \<longrightarrow> st = CStr ''Review'')))"
proof -
  have parse: "clean_numeric P c =
         (case parse_float P (remove_commas (astype_str P c)) of None \<Rightarrow> NaN | Some x \<Rightarrow> x)" for c
    by (rule clean_numeric_parse)
  have rows: "\<exists>ct cl rate.
           first_present (columns inv_df)
             [''Invoice Amount'', ''__InvoiceAmount'', ''Inv.Total'', ''Inv.Total ''] = Some ct
         \<and> first_present (columns inv_df) [''Invoice Labor Amount'', ''__Inv.LaborOnly''] = Some cl
         \<and> cell_at (build_rate_comps P inv_df land) i ''Inv.Total''
             = Some (CNum (clean_numeric P ((rows inv_df ! i) ct)))
         \<and> cell_at (build_rate_comps P inv_df land) i ''Invoice Labor Amount''
             = Some (CNum (clean_numeric P ((rows inv_df ! i) cl)))
         \<and> cell_at (build_rate_comps P inv_df land) i ''Sales Tax''
             = Some (CNum (clean_numeric P ((rows inv_df ! i) ''Invoice Tax Amount'')))
         \<and> cell_at (build_rate_comps P inv_df land) i ''Contracted Rate'' = Some (CNum rate)
         \<and> st = CStr (decide_approval (fsub (clean_numeric P ((rows inv_df ! i) ct)) rate))
         \<and> (isna (clean_numeric P ((rows inv_df ! i) ct)) \<longrightarrow> st = CStr ''Review'')"
    if st: "cell_at (build_rate_comps P inv_df land) i ''Approval.Status'' = Some st"
  proof -
    from cell_at_build [OF st] obtain sel where
      sel: "select_cols (columns inv_df) col_candidates = Inr sel" and
      cells: "\<And>m. cell_at (build_rate_comps P inv_df land) i m
                = Some (rate_comps_row P (rate_map P land) sel (rows inv_df ! i) m)" and
      tax: "''Invoice Tax Amount'' \<in> set (columns inv_df)"
      by blast
    have ct: "first_present (columns inv_df)
                [''Invoice Amount'', ''__InvoiceAmount'', ''Inv.Total'', ''Inv.Total '']
              = Some (selected sel ''Inv.Total'')"
      by (rule selected_first_present [OF sel]) (simp add: col_candidates_def)
    have cl: "first_present (columns inv_df) [''Invoice Labor Amount'', ''__Inv.LaborOnly'']
              = Some (selected sel ''Invoice Labor Amount'')"
      by (rule selected_first_present [OF sel]) (simp add: col_candidates_def)
    have cs: "selected sel ''Sales Tax'' = ''Invoice Tax Amount''"
      by (rule selected_sales_tax [OF sel tax])
    let ?total = "clean_numeric P ((rows inv_df ! i) (selected sel ''Inv.Total''))"
    let ?rate = "map_rate (rate_map P land) ((rows inv_df ! i) (selected sel ''Location ID''))"
    have stv: "st = CStr (decide_approval (fsub ?total ?rate))"
      using st by (simp add: cells rate_comps_row_fields)
    have review: "isna ?total \<longrightarrow> st = CStr ''Review''"
      by (simp add: stv isna_iff fsub_NaN decide_approval_NaN)
    show ?thesis
      apply (rule exI [of _ "selected sel ''Inv.Total''"])
      apply (rule exI [of _ "selected sel ''Invoice Labor Amount''"])
      apply (rule exI [of _ ?rate])
      using ct cl stv review by (simp add: cells rate_comps_row_fields cs)
  qed
  show ?thesis
    using parse rows by simp
qed


theorem money_columns_normalized_witness:
  "parse_float decimal_lib (remove_commas (astype_str decimal_lib (CStr ''TBD''))) = None
   \<and> clean_numeric decimal_lib (CStr ''TBD'') = NaN
   \<and> cell_at (build_rate_comps decimal_lib example_invoice example_contract) 3 ''Approval.Status''
       = Some (CStr ''Review'')
   \<and> cell_at (build_rate_comps decimal_lib example_invoice example_contract) 3 ''Inv.Total''
       = Some (CNum NaN)
   \<and> cell_at (build_rate_comps decimal_lib example_invoice example_contract) 3 ''Invoice Labor Amount''
       = Some (CNum (Fin 1000))
   \<and> cell_at (build_rate_comps decimal_lib example_invoice example_contract) 3 ''Sales Tax''
       = Some (CNum (Fin 0))"
proof -
  note inst = money_columns_normalized
    [where P = decimal_lib and inv_df = example_invoice and land = example_contract and i = 3
       and st = "CStr ''Review''"]
  have unparsable:
    "parse_float decimal_lib (remove_commas (astype_str decimal_lib (CStr ''TBD''))) = None"
    by (simp add: decimal_lib_def astype_str_def remove_commas_def parse_examples)
  have st: "cell_at (build_rate_comps decimal_lib example_invoice example_contract) 3
              ''Approval.Status'' = Some (CStr ''Review'')"
    by (simp add: example_cell rate_comps_row_fields example_selected example_rows
        example_clean_numeric fsub_NaN decide_approval_NaN)
  have cols:
    "first_present (columns example_invoice)
       [''Invoice Amount'', ''__InvoiceAmount'', ''Inv.Total'', ''Inv.Total ''] = Some ''Invoice Amount''"
    "first_present (columns example_invoice) [''Invoice Labor Amount'', ''__Inv.LaborOnly'']
       = Some ''Invoice Labor Amount''"
    by (simp_all add: example_invoice_def)
  have cells:
    "(rows example_invoice ! 3) ''Invoice Amount'' = CStr ''TBD''"
    "(rows example_invoice ! 3) ''Invoice Labor Amount'' = CStr ''1,000.00''"
    "(rows example_invoice ! 3) ''Invoice Tax Amount'' = CStr ''0.00''"
    by (simp_all add: example_invoice_def)
  have norm: "clean_numeric decimal_lib (CStr ''0.00'') = Fin 0"
    by (simp add: clean_numeric_def to_numeric_def astype_str_def remove_commas_def decimal_lib_def
        parse_examples)
  from inst unparsable have n: "clean_numeric decimal_lib (CStr ''TBD'') = NaN"
    by blast
  from inst st cols have
    "cell_at (build_rate_comps decimal_lib example_invoice example_contract) 3 ''Inv.Total''
       = Some (CNum (clean_numeric decimal_lib ((rows example_invoice ! 3) ''Invoice Amount'')))
     \<and> cell_at (build_rate_comps decimal_lib example_invoice example_contract) 3 ''Invoice Labor Amount''
       = Some (CNum (clean_numeric decimal_lib ((rows example_invoice ! 3) ''Invoice Labor Amount'')))
     \<and> cell_at (build_rate_comps decimal_lib example_invoice example_contract) 3 ''Sales Tax''
       = Some (CNum (clean_numeric decimal_lib ((rows example_invoice ! 3) ''Invoice Tax Amount'')))"
    by auto
  then show ?thesis
    using unparsable n st by (simp add: cells example_clean_numeric norm)
qed

text \<open>
  C5 as stated fails: in the first row of the example the tax cell does not parse and
  is missing in the output, and the row is Approved all the same.
\<close>

theorem missing_tax_still_approved:
  "(rows example_invoice ! 0) ''Invoice Tax Amount'' = CStr ''n/a''
   \<and> parse_float decimal_lib (remove_commas (astype_str decimal_lib (CStr ''n/a''))) = None
   \<and> cell_at (build_rate_comps decimal_lib example_invoice example_contract) 0 ''Sales Tax''
       = Some (CNum NaN)
   \<and> cell_at (build_rate_comps decimal_lib example_invoice example_contract) 0 ''Approval.Status''
       = Some (CStr ''Approved'')"
proof -
  have "parse_float decimal_lib (remove_commas (astype_str decimal_lib (CStr ''n/a''))) = None"
    by (simp add: decimal_lib_def astype_str_def remove_commas_def parse_examples)
  moreover have "map_rate (rate_map decimal_lib example_contract) (CNum (Fin 100)) = Fin 1000"
    using map_rate_int [of "rate_map decimal_lib example_contract" 100]
    by (simp add: example_rate_map)
  ultimately show ?thesis
    by (simp add: example_cell rate_comps_row_fields example_selected example_rows
        example_clean_numeric fsub_def decide_approval_def)
qed


subsection \<open>Rows in, rows out\<close>

text \<open>
  C6. When \<^verbatim>\<open>build_rate_comps\<close> returns, the output has the twelve Rate_Comps columns
  and one row for each invoice row, in the same order: row \<open>i\<close> of the output is a
  function of row \<open>i\<close> of the input and the rate mapping alone, carries the six
  identifying cells of the input row unchanged, and adds the contracted rate, the rate
  difference and the decision. The result depends on the contract sheet only through
  the rate mapping. (The model is a function of the two sheets: the source reads
  nothing else, so equal inputs give equal rows.)
\<close>

theorem build_rate_comps_rows:
  assumes "build_rate_comps P inv_df land = Inr out"
  shows "columns out = rate_comps_columns
   \<and> length (rows out) = length (rows inv_df)
   \<and> (\<exists>sel. select_cols (columns inv_df) col_candidates = Inr sel
         \<and> rows out = map (rate_comps_row P (rate_map P land) sel) (rows inv_df)
         \<and> (\<forall>i<length (rows inv_df).
               (rows out ! i) ''Location ID'' = (rows inv_df ! i) (selected sel ''Location ID'')
             \<and> (rows out ! i) ''W.O.#'' = (rows inv_df ! i) (selected sel ''W.O.#'')
             \<and> (rows out ! i) ''Category'' = (rows inv_df ! i) (selected sel ''Category'')
             \<and> (rows out ! i) ''Trade'' = (rows inv_df ! i) (selected sel ''Trade'')
             \<and> (rows out ! i) ''Invoice Number'' = (rows inv_df ! i) (selected sel ''Invoice Number'')
             \<and> (rows out ! i) ''Inv.Status'' = (rows inv_df ! i) (selected sel ''Inv.Status'')
             \<and> (rows out ! i) ''Contracted Rate''
                 = CNum (map_rate (rate_map P land) ((rows inv_df ! i) (selected sel ''Location ID'')))
             \<and> (rows out ! i) ''Rate Difference''
                 = CNum (fsub (clean_numeric P ((rows inv_df ! i) (selected sel ''Inv.Total'')))
                              (map_rate (rate_map P land)
                                 ((rows inv_df ! i) (selected sel ''Location ID''))))
             \<and> (rows out ! i) ''Approval.Status''
                 = CStr (decide_approval
                           (fsub (clean_numeric P ((rows inv_df ! i) (selected sel ''Inv.Total'')))
                                 (map_rate (rate_map P land)
                                    ((rows inv_df ! i) (selected sel ''Location ID'')))))))
   \<and> (\<forall>land'. rate_map P land' = rate_map P land
          \<longrightarrow> build_rate_comps P inv_df land' = Inr out)"
proof -
  from assms obtain sel where sel: "select_cols (columns inv_df) col_candidates = Inr sel"
    and out: "out = \<lparr>columns = rate_comps_columns,
                 rows = map (rate_comps_row P (rate_map P land) sel) (rows inv_df)\<rparr>"
    by (rule build_rate_comps_Inr)
  have same: "build_rate_comps P inv_df land' = Inr out" if "rate_map P land' = rate_map P land"
    for land'
    using assms that by (simp add: build_rate_comps_eq split: if_splits)
  show ?thesis
    using sel same by (simp add: out rate_comps_row_fields)
qed

theorem build_rate_comps_rows_witness:
  "\<exists>out. build_rate_comps decimal_lib example_invoice example_contract = Inr out
     \<and> columns out = rate_comps_columns
     \<and> length (rows out) = 4
     \<and> (rows out ! 0) ''W.O.#'' = CNum (Fin 5001)
     \<and> build_rate_comps decimal_lib example_invoice (rev (rev example_contract)) = Inr out"
proof -
  have tax: "''Invoice Tax Amount'' \<in> set (columns example_invoice)"
            "''Invoice Tax2 Amount'' \<in> set (columns example_invoice)"
    by (simp_all add: example_invoice_def)
  obtain out where out: "build_rate_comps decimal_lib example_invoice example_contract = Inr out"
    by (simp add: build_rate_comps_eq tax rate_comps_of_def example_select)
  have len: "length (rows example_invoice) = 4"
    by (simp add: example_invoice_def)
  from build_rate_comps_rows [OF out] obtain sel where
    c: "columns out = rate_comps_columns" and l: "length (rows out) = length (rows example_invoice)"
    and sel: "select_cols (columns example_invoice) col_candidates = Inr sel"
    and wo: "(rows out ! 0) ''W.O.#'' = (rows example_invoice ! 0) (selected sel ''W.O.#'')"
    and same: "\<forall>land'. rate_map decimal_lib land' = rate_map decimal_lib example_contract
          \<longrightarrow> build_rate_comps decimal_lib example_invoice land' = Inr out"
    using len by auto
  have "sel = example_selection" using sel by (simp add: example_select)
  then have "(rows out ! 0) ''W.O.#'' = CNum (Fin 5001)"
    using wo by (simp add: example_selected example_rows)
  moreover have "build_rate_comps decimal_lib example_invoice (rev (rev example_contract)) = Inr out"
    using same by simp
  ultimately show ?thesis
    using out c l len by simp
qed

section \<open>Properties of the choice of the invoice CSV\<close>

lemma find_first:
  "xs = pre @ c # post \<Longrightarrow> Q c \<Longrightarrow> \<forall>x \<in> set pre. \<not> Q x \<Longrightarrow> find Q xs = Some c"
  by (induction pre arbitrary: xs) auto

lemma find_none: "\<forall>x \<in> set xs. \<not> Q x \<Longrightarrow> find Q xs = None"
  by (induction xs) auto

lemma find_some_mem: "find Q xs = Some c \<Longrightarrow> Q c \<and> c \<in> set xs"
  by (induction xs) (auto split: if_splits)

lemma find_exists: "\<exists>x \<in> set xs. Q x \<Longrightarrow> \<exists>c. find Q xs = Some c"
  by (induction xs) auto

lemma preferred_is_financial: "is_financial (d @ [PREFERRED_NAME])"
  by (simp add: is_financial_def basename_def PREFERRED_NAME_def lower_def lower_char_def)


lemma find_exact:
  "p \<in> set xs \<Longrightarrow> find (\<lambda>c. c = p) xs = Some p"
  by (induction xs) auto

lemma find_exact_none:
  "p \<notin> set xs \<Longrightarrow> find (\<lambda>c. c = p) xs = None"
  by (induction xs) auto

text \<open>
  C8 (as amended). Without any CSV the search raises FileNotFoundError, and it raises
  nothing else. Otherwise the file chosen is: the file of the expected name directly
  in the extraction directory, when there is one; else the first CSV in listing order
  whose lower-cased name contains \<^verbatim>\<open>financial_details\<close>; else the first whose
  lower-cased name contains \<^verbatim>\<open>accounting_details\<close>; else the first CSV. In
  particular, whenever some CSV is a financial_details file, the chosen file is one,
  wherever an accounting_details file is listed.
\<close>

theorem find_invoice_csv_priority:
  "(find_invoice_csv d w = Inl FileNotFoundError \<longleftrightarrow> csv_candidates w = [])
   \<and> (\<forall>e. find_invoice_csv d w = Inl e \<longrightarrow> e = FileNotFoundError)
   \<and> (d @ [PREFERRED_NAME] \<in> set (csv_candidates w)
        \<longrightarrow> find_invoice_csv d w = Inr (d @ [PREFERRED_NAME]))
   \<and> (d @ [PREFERRED_NAME] \<notin> set (csv_candidates w)
        \<and> csv_candidates w = pre @ c # post \<and> is_financial c \<and> (\<forall>x \<in> set pre. \<not> is_financial x)
        \<longrightarrow> find_invoice_csv d w = Inr c)
   \<and> ((\<forall>x \<in> set (csv_candidates w). \<not> is_financial x)
        \<and> csv_candidates w = pre @ c # post \<and> is_accounting c \<and> (\<forall>x \<in> set pre. \<not> is_accounting x)
        \<longrightarrow> find_invoice_csv d w = Inr c)
   \<and> ((\<forall>x \<in> set (csv_candidates w). \<not> is_financial x \<and> \<not> is_accounting x)
        \<and> csv_candidates w = c # post
        \<longrightarrow> find_invoice_csv d w = Inr c)
   \<and> ((\<exists>x \<in> set (csv_candidates w). is_financial x)
        \<longrightarrow> (\<exists>r. find_invoice_csv d w = Inr r \<and> r \<in> set (csv_candidates w) \<and> is_financial r))"
proof -
  let ?cs = "csv_candidates w"
  let ?p = "d @ [PREFERRED_NAME]"
  have not_fin_not_exact: "?p \<notin> set ?cs" if "\<forall>x \<in> set ?cs. \<not> is_financial x"
    using that preferred_is_financial by blast
  have none: "find_invoice_csv d w = Inl FileNotFoundError \<longleftrightarrow> ?cs = []"
    by (auto simp: find_invoice_csv_def Let_def split: list.splits option.splits)
  have err: "e = FileNotFoundError" if "find_invoice_csv d w = Inl e" for e
    using that by (auto simp: find_invoice_csv_def Let_def split: list.splits option.splits)
  have exact: "find_invoice_csv d w = Inr ?p" if "?p \<in> set ?cs"
  proof -
    from that obtain f os where "?cs = f # os" by (cases ?cs) auto
    moreover have "find (\<lambda>c. c = ?p) ?cs = Some ?p" by (rule find_exact [OF that])
    ultimately show ?thesis by (simp add: find_invoice_csv_def Let_def)
  qed
  have fin: "find_invoice_csv d w = Inr c"
    if "?p \<notin> set ?cs" "?cs = pre @ c # post" "is_financial c" "\<forall>x \<in> set pre. \<not> is_financial x"
  proof -
    from that(2) obtain f os where "?cs = f # os" by (cases pre) auto
    moreover have "find (\<lambda>c. c = ?p) ?cs = None" by (rule find_exact_none [OF that(1)])
    moreover have "find is_financial ?cs = Some c" by (rule find_first [OF that(2) that(3) that(4)])
    ultimately show ?thesis by (simp add: find_invoice_csv_def Let_def)
  qed
  have acc: "find_invoice_csv d w = Inr c"
    if "\<forall>x \<in> set ?cs. \<not> is_financial x" "?cs = pre @ c # post" "is_accounting c"
       "\<forall>x \<in> set pre. \<not> is_accounting x"
  proof -
    from that(2) obtain f os where "?cs = f # os" by (cases pre) auto
    moreover have "find (\<lambda>c. c = ?p) ?cs = None"
      by (rule find_exact_none [OF not_fin_not_exact [OF that(1)]])
    moreover have "find is_financial ?cs = None" by (rule find_none [OF that(1)])
    moreover have "find is_accounting ?cs = Some c" by (rule find_first [OF that(2) that(3) that(4)])
    ultimately show ?thesis by (simp add: find_invoice_csv_def Let_def)
  qed
  have fallback: "find_invoice_csv d w = Inr c"
    if "\<forall>x \<in> set ?cs. \<not> is_financial x \<and> \<not> is_accounting x" "?cs = c # post"
  proof -
    have nf: "\<forall>x \<in> set ?cs. \<not> is_financial x" and na: "\<forall>x \<in> set ?cs. \<not> is_accounting x"
      using that(1) by blast+
    have "find (\<lambda>c. c = ?p) ?cs = None"
      by (rule find_exact_none [OF not_fin_not_exact [OF nf]])
    moreover have "find is_financial ?cs = None" by (rule find_none [OF nf])
    moreover have "find is_accounting ?cs = None" by (rule find_none [OF na])
    ultimately show ?thesis using that(2) by (simp add: find_invoice_csv_def Let_def)
  qed
  have particular: "\<exists>r. find_invoice_csv d w = Inr r \<and> r \<in> set ?cs \<and> is_financial r"
    if ex: "\<exists>x \<in> set ?cs. is_financial x"
  proof (cases "?p \<in> set ?cs")
    case True
    then show ?thesis using exact preferred_is_financial by blast
  next
    case False
    from ex obtain f os where cs: "?cs = f # os" by (cases ?cs) auto
    from find_exists [OF ex] obtain r where r: "find is_financial ?cs = Some r" by blast
    have "find (\<lambda>c. c = ?p) ?cs = None" by (rule find_exact_none [OF False])
    then have "find_invoice_csv d w = Inr r"
      using cs r by (simp add: find_invoice_csv_def Let_def)
    then show ?thesis using find_some_mem [OF r] by blast
  qed
  show ?thesis
    using none err exact fin acc fallback particular by blast
qed


lemma example_walk_candidates:
  "csv_candidates [([''x''], [''readme.txt'', ''accounting_details.csv'', ''Financial_Details_May.CSV''])]
     = [[''x'', ''accounting_details.csv''], [''x'', ''Financial_Details_May.CSV'']]"
  "csv_candidates [([''x''], [''old_financial_details.csv'']), ([''x'', ''sub''], [PREFERRED_NAME])]
     = [[''x'', ''old_financial_details.csv''], [''x'', ''sub'', PREFERRED_NAME]]"
  by (simp_all add: csv_candidates_def endswith_def lower_def lower_char_def PREFERRED_NAME_def)

lemma example_walk_kinds:
  "is_financial [''x'', ''Financial_Details_May.CSV'']"
  "\<not> is_financial [''x'', ''accounting_details.csv'']"
  "is_financial [''x'', ''old_financial_details.csv'']"
  by (simp_all add: is_financial_def basename_def lower_def lower_char_def)

theorem find_invoice_csv_priority_witness:
  "[''x'', PREFERRED_NAME]
     \<notin> set (csv_candidates
               [([''x''], [''readme.txt'', ''accounting_details.csv'', ''Financial_Details_May.CSV''])])
   \<and> is_financial [''x'', ''Financial_Details_May.CSV'']
   \<and> \<not> is_financial [''x'', ''accounting_details.csv'']
   \<and> find_invoice_csv [''x'']
         [([''x''], [''readme.txt'', ''accounting_details.csv'', ''Financial_Details_May.CSV''])]
       = Inr [''x'', ''Financial_Details_May.CSV'']"
proof -
  let ?w = "[([''x''], [''readme.txt'', ''accounting_details.csv'', ''Financial_Details_May.CSV''])]"
  have cs: "csv_candidates ?w = [[''x'', ''accounting_details.csv'']] @ [''x'', ''Financial_Details_May.CSV''] # []"
    by (simp add: example_walk_candidates)
  have ne: "[''x''] @ [PREFERRED_NAME] \<notin> set (csv_candidates ?w)"
    by (simp add: example_walk_candidates PREFERRED_NAME_def)
  have pre: "\<forall>x \<in> set [[''x'', ''accounting_details.csv'']]. \<not> is_financial x"
    by (simp add: example_walk_kinds)
  note inst = find_invoice_csv_priority
    [where d = "[''x'']" and w = ?w and pre = "[[''x'', ''accounting_details.csv'']]"
       and c = "[''x'', ''Financial_Details_May.CSV'']" and post = "[]"]
  from inst ne cs pre example_walk_kinds(1)
  have "find_invoice_csv [''x''] ?w = Inr [''x'', ''Financial_Details_May.CSV'']"
    by blast
  then show ?thesis
    using ne example_walk_kinds by simp
qed

text \<open>
  C8 as stated fails: a file of the exact expected name in a subfolder does not take
  precedence over another financial_details file that is listed before it.
\<close>

theorem exact_name_in_subfolder_not_preferred:
  "find_invoice_csv [''x'']
     [([''x''], [''old_financial_details.csv'']), ([''x'', ''sub''], [PREFERRED_NAME])]
     = Inr [''x'', ''old_financial_details.csv'']
   \<and> [''x'', ''sub'', PREFERRED_NAME]
       \<in> set (csv_candidates
                 [([''x''], [''old_financial_details.csv'']), ([''x'', ''sub''], [PREFERRED_NAME])])
   \<and> basename [''x'', ''sub'', PREFERRED_NAME] = PREFERRED_NAME
   \<and> basename [''x'', ''old_financial_details.csv''] \<noteq> PREFERRED_NAME"
proof -
  let ?w = "[([''x''], [''old_financial_details.csv'']), ([''x'', ''sub''], [PREFERRED_NAME])]"
  have cs: "csv_candidates ?w = [[''x'', ''old_financial_details.csv''], [''x'', ''sub'', PREFERRED_NAME]]"
    by (rule example_walk_candidates(2))
  have ne: "[''x'', ''old_financial_details.csv''] \<noteq> [''x'', PREFERRED_NAME]"
           "[''x'', ''sub'', PREFERRED_NAME] \<noteq> [''x'', PREFERRED_NAME]"
           "''old_financial_details.csv'' \<noteq> PREFERRED_NAME"
    by (simp_all add: PREFERRED_NAME_def)
  have "find_invoice_csv [''x''] ?w = Inr [''x'', ''old_financial_details.csv'']"
    unfolding find_invoice_csv_def cs by (simp add: ne example_walk_kinds)
  then show ?thesis
    by (simp add: cs basename_def ne)
qed

section \<open>Properties of the approval client\<close>

lemma api_calls_simps [simp]:
  "api_calls [] = 0"
  "api_calls (ApiCall req t r # es) = api_calls es + 1"
  "api_calls (TokenFetch tr # es) = api_calls es"
  "api_calls (es @ es') = api_calls es + api_calls es'"
  by (simp_all add: api_calls_def)

lemma token_fetches_simps [simp]:
  "token_fetches [] = 0"
  "token_fetches (ApiCall req t r # es) = token_fetches es"
  "token_fetches (TokenFetch tr # es) = token_fetches es + 1"
  "token_fetches (es @ es') = token_fetches es + token_fetches es'"
  by (simp_all add: token_fetches_def)

lemma get_access_token_eq:
  "get_access_token w s =
     ((case good_token (token_reply_at w (token_fetches (log s))) of
         Some t \<Rightarrow> Inr t
       | None \<Rightarrow> Inl (if token_reply_at w (token_fetches (log s)) = TokenConnectionFailed
                       then RequestException else RuntimeError)),
      s\<lparr>log := log s @ [TokenFetch (token_reply_at w (token_fetches (log s)))]\<rparr>)"
  by (cases "token_reply_at w (token_fetches (log s))")
     (auto simp: get_access_token_def Let_def split: option.splits)

lemma do_request_token:
  assumes "token_box s = Some t" "t \<noteq> []"
  shows "do_request w req s =
     ((case api_reply w (api_calls (log s)) of
         ConnectionFailed \<Rightarrow> Inl RequestException
       | Response resp \<Rightarrow> Inr resp),
      s\<lparr>log := log s @ [ApiCall req t (api_reply w (api_calls (log s)))]\<rparr>)"
  using assms
  by (cases "api_reply w (api_calls (log s))")
     (simp_all add: do_request_def get_or_refresh_token_def Let_def)


lemma lookup_link:
  assumes "strip wo \<noteq> []" "cache s (strip wo) = None"
  shows "lookup_invoice_by_wo w wo s =
     (case auth_guarded w (LookupRequest (filter_expr (strip wo))) s of
        (Inl e, s') \<Rightarrow>
          if e = RequestException then (Inr None, cache_put (strip wo) None s') else (Inl e, s')
      | (Inr resp, s') \<Rightarrow>
          if status_code resp = 401 then (Inr None, cache_put (strip wo) None s')
          else lookup_finish (strip wo) resp s')"
proof -
  let ?req = "LookupRequest (filter_expr (strip wo))"
  obtain r1 s1 where d1: "do_request w ?req s = (r1, s1)" by (cases "do_request w ?req s")
  show ?thesis
  proof (cases r1)
    case (Inl e)
    then show ?thesis
      using assms d1 by (simp add: lookup_invoice_by_wo_def auth_guarded_def Let_def)
  next
    case (Inr resp)
    show ?thesis
    proof (cases "status_code resp = 401")
      case False
      then show ?thesis
        using assms d1 Inr by (simp add: lookup_invoice_by_wo_def auth_guarded_def Let_def)
    next
      case True
      obtain r2 s2 where g: "get_access_token w s1 = (r2, s2)" by (cases "get_access_token w s1")
      show ?thesis
      proof (cases r2)
        case (Inl e)
        then show ?thesis
          using assms d1 Inr True g by (simp add: lookup_invoice_by_wo_def auth_guarded_def Let_def)
      next
        case tok: (Inr t)
        obtain r3 s3 where d3: "do_request w ?req (s2\<lparr>token_box := Some t\<rparr>) = (r3, s3)"
          by (cases "do_request w ?req (s2\<lparr>token_box := Some t\<rparr>)")
        show ?thesis
          using assms d1 Inr True g tok d3
          by (cases r3) (simp_all add: lookup_invoice_by_wo_def auth_guarded_def Let_def)
      qed
    qed
  qed
qed


lemma approve_link:
  assumes "or_empty_strip category = Inr cat"
  shows "approve_invoice w s invoice_id category approval_code =
     (case auth_guarded w
             (approve_request invoice_id approval_code cat) s of
        (Inl e, s') \<Rightarrow> if e = RequestException then (Inr False, s') else (Inl e, s')
      | (Inr resp, s') \<Rightarrow>
          if status_code resp = 401 then (Inr False, s') else (Inr (approve_finish resp), s'))"
proof -
  let ?req = "approve_request invoice_id approval_code cat"
  obtain r1 s1 where d1: "do_request w ?req s = (r1, s1)" by (cases "do_request w ?req s")
  show ?thesis
  proof (cases r1)
    case (Inl e)
    then show ?thesis
      using assms d1 by (simp add: approve_invoice_def auth_guarded_def Let_def)
  next
    case (Inr resp)
    show ?thesis
    proof (cases "status_code resp = 401")
      case False
      then show ?thesis
        using assms d1 Inr by (simp add: approve_invoice_def auth_guarded_def Let_def)
    next
      case True
      obtain r2 s2 where g: "get_access_token w s1 = (r2, s2)" by (cases "get_access_token w s1")
      show ?thesis
      proof (cases r2)
        case (Inl e)
        then show ?thesis
          using assms d1 Inr True g by (simp add: approve_invoice_def auth_guarded_def Let_def)
      next
        case tok: (Inr t)
        obtain r3 s3 where d3: "do_request w ?req (s2\<lparr>token_box := Some t\<rparr>) = (r3, s3)"
          by (cases "do_request w ?req (s2\<lparr>token_box := Some t\<rparr>)")
        show ?thesis
          using assms d1 Inr True g tok d3
          by (cases r3) (simp_all add: approve_invoice_def auth_guarded_def Let_def)
      qed
    qed
  qed
qed

lemma good_token_nonempty: "good_token tr = Some t' \<Longrightarrow> t' \<noteq> []"
  by (cases tr) (auto split: if_splits option.splits)

lemma auth_guarded_eq:
  assumes t: "token_box s = Some t" "t \<noteq> []"
  shows "auth_guarded w req s =
     (let r1 = api_reply w (api_calls (log s));
          tr = token_reply_at w (token_fetches (log s));
          r2 = api_reply w (api_calls (log s) + 1)
      in case r1 of
           ConnectionFailed \<Rightarrow> (Inl RequestException, s\<lparr>log := log s @ [ApiCall req t r1]\<rparr>)
         | Response resp \<Rightarrow>
             if status_code resp = 401
             then (case good_token tr of
                     None \<Rightarrow>
                       (Inl (if tr = TokenConnectionFailed then RequestException else RuntimeError),
                        s\<lparr>log := log s @ [ApiCall req t r1, TokenFetch tr]\<rparr>)
                   | Some t' \<Rightarrow>
                       ((case r2 of ConnectionFailed \<Rightarrow> Inl RequestException
                                  | Response resp2 \<Rightarrow> Inr resp2),
                        s\<lparr>token_box := Some t',
                          log := log s @ [ApiCall req t r1, TokenFetch tr, ApiCall req t' r2]\<rparr>))
             else (Inr resp, s\<lparr>log := log s @ [ApiCall req t r1]\<rparr>))"
proof (cases "api_reply w (api_calls (log s))")
  case ConnectionFailed
  then show ?thesis
    by (simp add: auth_guarded_def do_request_token [OF t] Let_def)
next
  case (Response resp)
  show ?thesis
  proof (cases "status_code resp = 401")
    case False
    then show ?thesis
      using Response by (simp add: auth_guarded_def do_request_token [OF t] Let_def)
  next
    case True
    let ?tr = "token_reply_at w (token_fetches (log s))"
    show ?thesis
    proof (cases "good_token ?tr")
      case None
      then show ?thesis
        using Response True
        by (simp add: auth_guarded_def do_request_token [OF t] get_access_token_eq Let_def)
    next
      case (Some t')
      let ?s2 = "s\<lparr>log := log s @ [ApiCall req t (Response resp), TokenFetch ?tr],
                   token_box := Some t'\<rparr>"
      have tb: "token_box ?s2 = Some t'" by simp
      have d: "do_request w req ?s2 =
         ((case api_reply w (api_calls (log ?s2)) of
             ConnectionFailed \<Rightarrow> Inl RequestException
           | Response resp \<Rightarrow> Inr resp),
          ?s2\<lparr>log := log ?s2 @ [ApiCall req t' (api_reply w (api_calls (log ?s2)))]\<rparr>)"
        by (rule do_request_token [OF tb good_token_nonempty [OF Some]])
      show ?thesis
        using Response True Some d
        by (simp add: auth_guarded_def do_request_token [OF t] get_access_token_eq Let_def)
    qed
  qed
qed


lemma cache_put_fields [simp]:
  "log (cache_put k m s) = log s"
  "token_box (cache_put k m s) = token_box s"
  "cache (cache_put k m s) k = Some m"
  by (simp_all add: cache_put_def)

lemma lookup_finish_fields [simp]:
  "log (snd (lookup_finish k resp s)) = log s"
  "token_box (snd (lookup_finish k resp s)) = token_box s"
  by (simp_all add: lookup_finish_def Let_def split: option.splits list.splits)

lemma lookup_state:
  assumes "strip wo \<noteq> []" "cache s (strip wo) = None"
  shows "log (snd (lookup_invoice_by_wo w wo s))
           = log (snd (auth_guarded w (LookupRequest (filter_expr (strip wo))) s))
         \<and> token_box (snd (lookup_invoice_by_wo w wo s))
           = token_box (snd (auth_guarded w (LookupRequest (filter_expr (strip wo))) s))"
proof -
  obtain r s' where a: "auth_guarded w (LookupRequest (filter_expr (strip wo))) s = (r, s')"
    by (cases "auth_guarded w (LookupRequest (filter_expr (strip wo))) s")
  show ?thesis
    by (cases r) (simp_all add: lookup_link [OF assms] a)
qed

lemma approve_state:
  assumes "or_empty_strip category = Inr cat"
  shows "snd (approve_invoice w s invoice_id category approval_code)
           = snd (auth_guarded w (approve_request invoice_id approval_code cat) s)"
proof -
  obtain r s' where a: "auth_guarded w (approve_request invoice_id approval_code cat) s = (r, s')"
    by (cases "auth_guarded w (approve_request invoice_id approval_code cat) s")
  show ?thesis
    by (cases r) (simp_all add: approve_link [OF assms] a)
qed


lemma process_rows_lookup_failed:
  assumes "or_empty_strip (row ''Trade'') = Inr tr"
    and "lookup_invoice_by_wo w (astype_str P (row ''W.O.#'')) s = (Inr None, s1)"
  shows "process_rows w P (row # rest) a f s = process_rows w P rest a (f + 1) s1"
  using assms by simp

lemma process_rows_approve_result:
  assumes "or_empty_strip (row ''Trade'') = Inr tr"
    and "lookup_invoice_by_wo w (astype_str P (row ''W.O.#'')) s = (Inr (Some m), s1)"
    and "approve_invoice w s1 (meta_id m) (row ''Category'') (meta_approval_code m) = (Inr ok, s2)"
  shows "process_rows w P (row # rest) a f s =
           process_rows w P rest (if ok then a + 1 else a) (if ok then f else f + 1) s2"
  using assms by simp


lemma retry_contract_guarded:
  assumes tok: "token_box s = Some t" "t \<noteq> []"
    and lg: "log s' = log (snd (auth_guarded w req s))"
    and tb: "token_box s' = token_box (snd (auth_guarded w req s))"
    and f401: "\<And>resp. fst (auth_guarded w req s) = Inr resp \<Longrightarrow> status_code resp = 401
                 \<Longrightarrow> row_failed \<and> raised = None"
    and fconn: "fst (auth_guarded w req s) = Inl RequestException \<Longrightarrow> row_failed \<and> raised = None"
    and frt: "fst (auth_guarded w req s) = Inl RuntimeError \<Longrightarrow> raised = Some RuntimeError"
  shows "retry_contract w req t s s' row_failed raised"
proof -
  note ag = auth_guarded_eq [OF tok, of w req]
  let ?r1 = "api_reply w (api_calls (log s))"
  let ?tr = "token_reply_at w (token_fetches (log s))"
  let ?r2 = "api_reply w (api_calls (log s) + 1)"
  have one: "log s' = log s @ [ApiCall req t ?r1] \<and> token_box s' = Some t"
    if "\<forall>resp. ?r1 = Response resp \<longrightarrow> status_code resp \<noteq> 401"
    using that tok by (cases ?r1) (simp_all add: lg tb ag Let_def)
  have two: "log s' = log s @ [ApiCall req t ?r1, TokenFetch ?tr, ApiCall req t' ?r2]
             \<and> token_box s' = Some t'
             \<and> (\<forall>resp2. ?r2 = Response resp2 \<and> status_code resp2 = 401 \<longrightarrow>
                   row_failed \<and> raised = None)"
    if r1: "?r1 = Response resp" "status_code resp = 401" and g: "good_token ?tr = Some t'"
    for resp t'
  proof -
    have a: "auth_guarded w req s =
           ((case ?r2 of ConnectionFailed \<Rightarrow> Inl RequestException | Response resp2 \<Rightarrow> Inr resp2),
            s\<lparr>token_box := Some t',
              log := log s @ [ApiCall req t ?r1, TokenFetch ?tr, ApiCall req t' ?r2]\<rparr>)"
      using r1 g by (simp add: ag Let_def)
    have "row_failed \<and> raised = None" if "?r2 = Response resp2" "status_code resp2 = 401" for resp2
      using f401 [of resp2] that by (simp add: a)
    then show ?thesis by (simp add: lg tb a)
  qed
  have three: "log s' = log s @ [ApiCall req t ?r1, TokenFetch ?tr]
             \<and> token_box s' = Some t
             \<and> (if ?tr = TokenConnectionFailed then row_failed \<and> raised = None
                 else raised = Some RuntimeError)"
    if r1: "?r1 = Response resp" "status_code resp = 401" and g: "good_token ?tr = None"
    for resp
  proof -
    have a: "auth_guarded w req s =
           (Inl (if ?tr = TokenConnectionFailed then RequestException else RuntimeError),
            s\<lparr>log := log s @ [ApiCall req t ?r1, TokenFetch ?tr]\<rparr>)"
      using r1 g by (simp add: ag Let_def)
    show ?thesis
      using fconn frt tok by (simp add: lg tb a)
  qed
  show ?thesis
    unfolding retry_contract_def Let_def using one two three by blast
qed

text \<open>
  C3 (as amended). A lookup that has to ask the server and an approval, started with a
  token in the slot, keep the contract of the guarded request: the request goes out
  with the current token; after a 401 exactly one replacement token is asked for; when
  that yields a token the request is repeated exactly once with it, and a second 401
  fails the row (the lookup caches the miss) without a third request; when it yields
  no token the request is not repeated, and the row fails (no connection) or
  RuntimeError leaves the function. A failed row is counted in the failure counter
  and the loop goes on with the rows that follow.
\<close>

theorem auth_retry_once:
  assumes tok: "token_box s = Some t" "t \<noteq> []"
  shows
  "(strip wo \<noteq> [] \<and> cache s (strip wo) = None \<longrightarrow>
      retry_contract w (LookupRequest (filter_expr (strip wo))) t s
        (snd (lookup_invoice_by_wo w wo s))
        (fst (lookup_invoice_by_wo w wo s) = Inr None
         \<and> cache (snd (lookup_invoice_by_wo w wo s)) (strip wo) = Some None)
        (raised_by (fst (lookup_invoice_by_wo w wo s))))
   \<and> (or_empty_strip category = Inr cat \<longrightarrow>
      retry_contract w (approve_request invoice_id approval_code cat) t s
        (snd (approve_invoice w s invoice_id category approval_code))
        (fst (approve_invoice w s invoice_id category approval_code) = Inr False)
        (raised_by (fst (approve_invoice w s invoice_id category approval_code))))
   \<and> (\<forall>row rest a f tr s1.
         or_empty_strip (row ''Trade'') = Inr tr
         \<and> lookup_invoice_by_wo w (astype_str P (row ''W.O.#'')) s = (Inr None, s1)
         \<longrightarrow> process_rows w P (row # rest) a f s = process_rows w P rest a (f + 1) s1)
   \<and> (\<forall>row rest a f tr m s1 s2.
         or_empty_strip (row ''Trade'') = Inr tr
         \<and> lookup_invoice_by_wo w (astype_str P (row ''W.O.#'')) s = (Inr (Some m), s1)
         \<and> approve_invoice w s1 (meta_id m) (row ''Category'') (meta_approval_code m) = (Inr False, s2)
         \<longrightarrow> process_rows w P (row # rest) a f s = process_rows w P rest a (f + 1) s2)"
proof -
  have lookup: "retry_contract w (LookupRequest (filter_expr (strip wo))) t s
        (snd (lookup_invoice_by_wo w wo s))
        (fst (lookup_invoice_by_wo w wo s) = Inr None
         \<and> cache (snd (lookup_invoice_by_wo w wo s)) (strip wo) = Some None)
        (raised_by (fst (lookup_invoice_by_wo w wo s)))"
    if key: "strip wo \<noteq> []" "cache s (strip wo) = None"
  proof -
    let ?req = "LookupRequest (filter_expr (strip wo))"
    obtain r s1 where a: "auth_guarded w ?req s = (r, s1)" by (cases "auth_guarded w ?req s")
    note lk = lookup_link [OF key, of w]
    show ?thesis
    proof (rule retry_contract_guarded [OF tok])
      show "log (snd (lookup_invoice_by_wo w wo s)) = log (snd (auth_guarded w ?req s))"
        and "token_box (snd (lookup_invoice_by_wo w wo s)) = token_box (snd (auth_guarded w ?req s))"
        using lookup_state [OF key, of w] by simp_all
    qed (simp_all add: lk a)
  qed
  have approve: "retry_contract w (approve_request invoice_id approval_code cat) t s
        (snd (approve_invoice w s invoice_id category approval_code))
        (fst (approve_invoice w s invoice_id category approval_code) = Inr False)
        (raised_by (fst (approve_invoice w s invoice_id category approval_code)))"
    if cat: "or_empty_strip category = Inr cat"
  proof -
    let ?req = "approve_request invoice_id approval_code cat"
    obtain r s1 where a: "auth_guarded w ?req s = (r, s1)" by (cases "auth_guarded w ?req s")
    note lk = approve_link [OF cat, of w s invoice_id approval_code]
    show ?thesis
    proof (rule retry_contract_guarded [OF tok])
      show "log (snd (approve_invoice w s invoice_id category approval_code))
            = log (snd (auth_guarded w ?req s))"
        and "token_box (snd (approve_invoice w s invoice_id category approval_code))
            = token_box (snd (auth_guarded w ?req s))"
        using approve_state [OF cat, of w s invoice_id approval_code] by simp_all
    qed (simp_all add: lk a)
  qed
  show ?thesis
    using lookup approve by simp
qed


lemma example_sheet_loaded: "load_rate_comps (Some example_sheet) = Inr example_sheet"
  by (simp add: load_rate_comps_def example_sheet_def expected_cols_def)

lemma example_row_fields:
  "sheet_row wo st ''W.O.#'' = CStr wo"
  "sheet_row wo st ''Category'' = CStr ''Maintenance''"
  "sheet_row wo st ''Trade'' = CStr ''LANDSCAPING''"
  "sheet_row wo st ''Approval.Status'' = st"
  by (simp_all add: sheet_row_def)

lemma example_statuses:
  "is_approved decimal_lib (sheet_row wo (CStr ''Approved''))"
  "is_approved decimal_lib (sheet_row wo (CStr '' approved ''))"
  "\<not> is_approved decimal_lib (sheet_row wo (CStr ''Review''))"
  "\<not> is_approved decimal_lib (sheet_row wo (CNum NaN))"
  by (simp_all add: is_approved_def example_row_fields astype_str_def decimal_lib_def
      format_float_def strip_def is_space_def upper_def upper_char_def)

lemma example_rows_split:
  "filter (is_approved decimal_lib) (rows example_sheet)
     = [sheet_row ''5001'' (CStr ''Approved''), sheet_row ''5002'' (CStr '' approved '')]"
  "filter (\<lambda>r. \<not> is_approved decimal_lib r) (rows example_sheet)
     = [sheet_row ''5003'' (CStr ''Review''), sheet_row ''5004'' (CNum NaN)]"
  by (simp_all add: example_sheet_def example_statuses)

lemma example_strings:
  "strip ''5001'' = ''5001''" "strip ''5002'' = ''5002''"
  "strip ''LANDSCAPING'' = ''LANDSCAPING''" "strip ''Maintenance'' = ''Maintenance''"
  "upper ''Maintenance'' = ''MAINTENANCE''" "strip [] = []"
  by (simp_all add: strip_def is_space_def upper_def upper_char_def)

lemma example_requests:
  "approve_request i None ''Maintenance'' = ApproveRequest i ''5440-102100'' ''MAINTENANCE''"
  "or_empty_strip (CStr ''Maintenance'') = Inr ''Maintenance''"
  "or_empty_strip (CStr ''LANDSCAPING'') = Inr ''LANDSCAPING''"
  by (simp_all add: approve_request_def or_empty_strip_def example_strings Let_def
      APPROVAL_CODE_DEFAULT_def CATEGORY_FALLBACK_def)

lemma scripted_simps:
  "api_reply (scripted rs ts) n = (if n < length rs then rs ! n else ConnectionFailed)"
  "token_reply_at (scripted rs ts) n = (if n < length ts then ts ! n else TokenConnectionFailed)"
  by (simp_all add: scripted_def)

theorem auth_retry_once_witness:
  "token_box example_client = Some ''T1''
   \<and> strip ''5001'' \<noteq> [] \<and> cache example_client (strip ''5001'') = None
   \<and> log (snd (lookup_invoice_by_wo unauthorized_world ''5001'' example_client))
       = [TokenFetch (TokenResponse True (Some ''T1'')),
          ApiCall (LookupRequest (filter_expr ''5001'')) ''T1'' (status_reply 401 []),
          TokenFetch (TokenResponse True (Some ''T2'')),
          ApiCall (LookupRequest (filter_expr ''5001'')) ''T2'' (status_reply 401 [])]
   \<and> token_box (snd (lookup_invoice_by_wo unauthorized_world ''5001'' example_client)) = Some ''T2''
   \<and> fst (lookup_invoice_by_wo unauthorized_world ''5001'' example_client) = Inr None
   \<and> or_empty_strip (CStr ''Maintenance'') = Inr ''Maintenance''
   \<and> log (snd (approve_invoice unauthorized_world example_client 7 (CStr ''Maintenance'') None))
       = [TokenFetch (TokenResponse True (Some ''T1'')),
          ApiCall (approve_request 7 None ''Maintenance'') ''T1'' (status_reply 401 []),
          TokenFetch (TokenResponse True (Some ''T2'')),
          ApiCall (approve_request 7 None ''Maintenance'') ''T2'' (status_reply 401 [])]
   \<and> fst (approve_invoice unauthorized_world example_client 7 (CStr ''Maintenance'') None) = Inr False"
proof -
  have tok: "token_box example_client = Some ''T1''" "''T1'' \<noteq> []"
    by (simp_all add: example_client_def)
  have key: "strip ''5001'' \<noteq> []" "cache example_client (strip ''5001'') = None"
    by (simp_all add: example_strings example_client_def)
  have cat: "or_empty_strip (CStr ''Maintenance'') = Inr ''Maintenance''"
    by (rule example_requests)
  note inst = auth_retry_once [OF tok, where w = unauthorized_world and wo = "''5001''"
      and category = "CStr ''Maintenance''" and cat = "''Maintenance''" and invoice_id = 7
      and approval_code = None]
  have world:
    "api_reply unauthorized_world (api_calls (log example_client)) = status_reply 401 []"
    "api_reply unauthorized_world (api_calls (log example_client) + 1) = status_reply 401 []"
    "token_reply_at unauthorized_world (token_fetches (log example_client))
       = TokenResponse True (Some ''T2'')"
    by (simp_all add: unauthorized_world_def scripted_simps example_client_def)
  have l: "retry_contract unauthorized_world (LookupRequest (filter_expr (strip ''5001''))) ''T1''
        example_client
        (snd (lookup_invoice_by_wo unauthorized_world ''5001'' example_client))
        (fst (lookup_invoice_by_wo unauthorized_world ''5001'' example_client) = Inr None
         \<and> cache (snd (lookup_invoice_by_wo unauthorized_world ''5001'' example_client))
              (strip ''5001'') = Some None)
        (raised_by (fst (lookup_invoice_by_wo unauthorized_world ''5001'' example_client)))"
    using inst key by blast
  have a: "retry_contract unauthorized_world (approve_request 7 None ''Maintenance'') ''T1''
        example_client
        (snd (approve_invoice unauthorized_world example_client 7 (CStr ''Maintenance'') None))
        (fst (approve_invoice unauthorized_world example_client 7 (CStr ''Maintenance'') None)
           = Inr False)
        (raised_by (fst (approve_invoice unauthorized_world example_client 7
                           (CStr ''Maintenance'') None)))"
    using inst cat by blast
  have log0: "log example_client = [TokenFetch (TokenResponse True (Some ''T1''))]"
    by (simp add: example_client_def)
  from l have
    "log (snd (lookup_invoice_by_wo unauthorized_world ''5001'' example_client))
       = [TokenFetch (TokenResponse True (Some ''T1'')),
          ApiCall (LookupRequest (filter_expr ''5001'')) ''T1'' (status_reply 401 []),
          TokenFetch (TokenResponse True (Some ''T2'')),
          ApiCall (LookupRequest (filter_expr ''5001'')) ''T2'' (status_reply 401 [])]
     \<and> token_box (snd (lookup_invoice_by_wo unauthorized_world ''5001'' example_client)) = Some ''T2''
     \<and> fst (lookup_invoice_by_wo unauthorized_world ''5001'' example_client) = Inr None"
    unfolding retry_contract_def Let_def world
    by (simp add: status_reply_def log0 example_strings)
  moreover from a have
    "log (snd (approve_invoice unauthorized_world example_client 7 (CStr ''Maintenance'') None))
       = [TokenFetch (TokenResponse True (Some ''T1'')),
          ApiCall (approve_request 7 None ''Maintenance'') ''T1'' (status_reply 401 []),
          TokenFetch (TokenResponse True (Some ''T2'')),
          ApiCall (approve_request 7 None ''Maintenance'') ''T2'' (status_reply 401 [])]
     \<and> fst (approve_invoice unauthorized_world example_client 7 (CStr ''Maintenance'') None)
         = Inr False"
    unfolding retry_contract_def Let_def world
    by (simp add: status_reply_def log0)
  ultimately show ?thesis
    using tok key cat by simp
qed

lemma refused_run:
  "approvals_body
     (scripted [status_reply 401 []] [TokenResponse True (Some ''T1''), TokenResponse False None])
     decimal_lib (Some example_sheet)
   = \<lparr>approved_count = 0, failed_count = 0, review_count = 2, error_text = Some RuntimeError,
      final = \<lparr>token_box = Some ''T1'', cache = Map.empty,
                log = [TokenFetch (TokenResponse True (Some ''T1'')),
                       ApiCall (LookupRequest (filter_expr ''5001'')) ''T1'' (status_reply 401 []),
                       TokenFetch (TokenResponse False None)]\<rparr>\<rparr>"
proof -
  let ?w = "scripted [status_reply 401 []] [TokenResponse True (Some ''T1''), TokenResponse False None]"
  let ?s = "\<lparr>token_box = Some ''T1'', cache = Map.empty,
             log = [TokenFetch (TokenResponse True (Some ''T1''))]\<rparr>"
  have w: "api_reply ?w 0 = status_reply 401 []"
          "token_reply_at ?w 0 = TokenResponse True (Some ''T1'')"
          "token_reply_at ?w (Suc 0) = TokenResponse False None"
    by (simp_all add: scripted_def)
  have first: "get_access_token ?w \<lparr>token_box = None, cache = Map.empty, log = []\<rparr>
               = (Inr ''T1'', \<lparr>token_box = None, cache = Map.empty,
                                log = [TokenFetch (TokenResponse True (Some ''T1''))]\<rparr>)"
    by (simp add: get_access_token_eq w)
  have ag: "auth_guarded ?w (LookupRequest (filter_expr ''5001'')) ?s
            = (Inl RuntimeError,
               ?s\<lparr>log := log ?s @ [ApiCall (LookupRequest (filter_expr ''5001'')) ''T1''
                                      (status_reply 401 []),
                                    TokenFetch (TokenResponse False None)]\<rparr>)"
    by (subst auth_guarded_eq [where t = "''T1''"])
       (simp_all add: scripted_simps status_reply_def Let_def)
  have lk: "lookup_invoice_by_wo ?w ''5001'' ?s
            = (Inl RuntimeError,
               ?s\<lparr>log := log ?s @ [ApiCall (LookupRequest (filter_expr ''5001'')) ''T1''
                                      (status_reply 401 []),
                                    TokenFetch (TokenResponse False None)]\<rparr>)"
    by (subst lookup_link) (simp_all add: example_strings ag)
  have body: "approvals_body ?w decimal_lib (Some example_sheet)
              = \<lparr>approved_count = 0, failed_count = 0, review_count = 2,
                 error_text = Some RuntimeError,
                 final = ?s\<lparr>log := log ?s @ [ApiCall (LookupRequest (filter_expr ''5001'')) ''T1''
                                      (status_reply 401 []),
                                    TokenFetch (TokenResponse False None)]\<rparr>\<rparr>"
    by (simp add: approvals_body_def first example_sheet_loaded example_rows_split Let_def
        example_row_fields example_requests astype_str_def lk)
  show ?thesis
    by (simp add: body)
qed

text \<open>
  C3 as stated fails: when the first lookup is answered 401 and the token endpoint
  refuses the replacement token, the request is not repeated, no row is counted as
  failed, and the run ends with RuntimeError instead of going on.
\<close>

theorem refresh_refused_no_retry:
  "log (final (approvals_body
                 (scripted [status_reply 401 []]
                           [TokenResponse True (Some ''T1''), TokenResponse False None])
                 decimal_lib (Some example_sheet)))
     = [TokenFetch (TokenResponse True (Some ''T1'')),
        ApiCall (LookupRequest (filter_expr ''5001'')) ''T1'' (status_reply 401 []),
        TokenFetch (TokenResponse False None)]
   \<and> error_text (approvals_body
                 (scripted [status_reply 401 []]
                           [TokenResponse True (Some ''T1''), TokenResponse False None])
                 decimal_lib (Some example_sheet)) = Some RuntimeError
   \<and> failed_count (approvals_body
                 (scripted [status_reply 401 []]
                           [TokenResponse True (Some ''T1''), TokenResponse False None])
                 decimal_lib (Some example_sheet)) = 0"
  by (simp add: refused_run)

subsection \<open>The outcome of an approval\<close>

lemma approve_first_answer:
  assumes tok: "token_box s = Some t" "t \<noteq> []" and cat: "or_empty_strip category = Inr cat"
    and r1: "api_reply w (api_calls (log s)) = Response resp" "status_code resp \<noteq> 401"
  shows "fst (approve_invoice w s invoice_id category approval_code) = Inr (approve_finish resp)"
  using r1
  by (simp add: approve_link [OF cat] auth_guarded_eq [OF tok] Let_def)

lemma approve_second_answer:
  assumes tok: "token_box s = Some t" "t \<noteq> []" and cat: "or_empty_strip category = Inr cat"
    and r1: "api_reply w (api_calls (log s)) = Response resp" "status_code resp = 401"
    and g: "good_token (token_reply_at w (token_fetches (log s))) = Some t'"
    and r2: "api_reply w (api_calls (log s) + 1) = Response resp2" "status_code resp2 \<noteq> 401"
  shows "fst (approve_invoice w s invoice_id category approval_code) = Inr (approve_finish resp2)"
  using r1 g r2
  by (simp add: approve_link [OF cat] auth_guarded_eq [OF tok] Let_def)

text \<open>
  C4 (as amended). The answer that ends an approval (the first one, or the second one
  after a 401 and a new token) counts as approved exactly when its status is 200 or
  204, or its status is 403 and its text contains \<^verbatim>\<open>already had this status\<close>;
  every other status counts as failed. The loop adds one to the approved counter in
  the first case and one to the failed counter in the second, and goes on with the
  rows that follow.
\<close>

theorem approval_classification:
  "(\<forall>resp. approve_finish resp
            = (status_code resp = 200 \<or> status_code resp = 204
               \<or> (status_code resp = 403 \<and> contains ''already had this status'' (resp_text resp))))
   \<and> (token_box s = Some t \<and> t \<noteq> [] \<and> or_empty_strip category = Inr cat
        \<and> api_reply w (api_calls (log s)) = Response resp \<and> status_code resp \<noteq> 401
      \<longrightarrow> fst (approve_invoice w s invoice_id category approval_code) = Inr (approve_finish resp))
   \<and> (token_box s = Some t \<and> t \<noteq> [] \<and> or_empty_strip category = Inr cat
        \<and> api_reply w (api_calls (log s)) = Response resp \<and> status_code resp = 401
        \<and> good_token (token_reply_at w (token_fetches (log s))) = Some t'
        \<and> api_reply w (api_calls (log s) + 1) = Response resp2 \<and> status_code resp2 \<noteq> 401
      \<longrightarrow> fst (approve_invoice w s invoice_id category approval_code) = Inr (approve_finish resp2))
   \<and> (or_empty_strip (row ''Trade'') = Inr tr
        \<and> lookup_invoice_by_wo w (astype_str P (row ''W.O.#'')) s = (Inr (Some m), s1)
        \<and> approve_invoice w s1 (meta_id m) (row ''Category'') (meta_approval_code m) = (Inr ok, s2)
      \<longrightarrow> process_rows w P (row # rest) a f s
          = process_rows w P rest (if ok then a + 1 else a) (if ok then f else f + 1) s2)"
proof (intro conjI allI impI; (elim conjE)?)
  fix resp
  show "approve_finish resp
            = (status_code resp = 200 \<or> status_code resp = 204
               \<or> (status_code resp = 403 \<and> contains ''already had this status'' (resp_text resp)))"
    by (simp add: approve_finish_def)
next
  assume "token_box s = Some t" "t \<noteq> []" "or_empty_strip category = Inr cat"
    "api_reply w (api_calls (log s)) = Response resp" "status_code resp \<noteq> 401"
  then show "fst (approve_invoice w s invoice_id category approval_code) = Inr (approve_finish resp)"
    by (rule approve_first_answer)
next
  assume "token_box s = Some t" "t \<noteq> []" "or_empty_strip category = Inr cat"
    "api_reply w (api_calls (log s)) = Response resp" "status_code resp = 401"
    "good_token (token_reply_at w (token_fetches (log s))) = Some t'"
    "api_reply w (api_calls (log s) + 1) = Response resp2" "status_code resp2 \<noteq> 401"
  then show "fst (approve_invoice w s invoice_id category approval_code) = Inr (approve_finish resp2)"
    by (rule approve_second_answer)
next
  assume "or_empty_strip (row ''Trade'') = Inr tr"
    "lookup_invoice_by_wo w (astype_str P (row ''W.O.#'')) s = (Inr (Some m), s1)"
    "approve_invoice w s1 (meta_id m) (row ''Category'') (meta_approval_code m) = (Inr ok, s2)"
  then show "process_rows w P (row # rest) a f s
          = process_rows w P rest (if ok then a + 1 else a) (if ok then f else f + 1) s2"
    by (rule process_rows_approve_result)
qed

lemma contains_already:
  "contains ''already had this status'' ''Invoice already had this status.''"
  by simp

theorem approval_classification_witness:
  "token_box example_client = Some ''T1''
   \<and> or_empty_strip (CStr ''Maintenance'') = Inr ''Maintenance''
   \<and> api_reply (scripted [status_reply 403 ''Invoice already had this status.''] [])
        (api_calls (log example_client))
       = Response \<lparr>status_code = 403, resp_text = ''Invoice already had this status.'',
                   json_value = None\<rparr>
   \<and> fst (approve_invoice (scripted [status_reply 403 ''Invoice already had this status.''] [])
            example_client 7 (CStr ''Maintenance'') None) = Inr True"
proof -
  let ?w = "scripted [status_reply 403 ''Invoice already had this status.''] []"
  let ?resp = "\<lparr>status_code = 403, resp_text = ''Invoice already had this status.'',
                 json_value = None\<rparr>"
  have tok: "token_box example_client = Some ''T1''" "''T1'' \<noteq> []"
    by (simp_all add: example_client_def)
  have cat: "or_empty_strip (CStr ''Maintenance'') = Inr ''Maintenance''"
    by (rule example_requests)
  have r1: "api_reply ?w (api_calls (log example_client)) = Response ?resp"
    by (simp add: scripted_simps example_client_def status_reply_def)
  have ne: "status_code ?resp \<noteq> 401" by simp
  note inst = approval_classification [where s = example_client and t = "''T1''" and w = ?w
      and category = "CStr ''Maintenance''" and cat = "''Maintenance''" and resp = ?resp
      and invoice_id = 7 and approval_code = None]
  from inst tok cat r1 ne
  have "fst (approve_invoice ?w example_client 7 (CStr ''Maintenance'') None)
        = Inr (approve_finish ?resp)"
    by blast
  moreover from inst have "approve_finish ?resp" 
    using contains_already by simp
  ultimately show ?thesis
    using tok cat r1 by simp
qed

text \<open>
  C4 as stated fails: the success status 201 is counted as a failure.
\<close>

theorem created_status_counts_failed:
  "fst (approve_invoice (scripted [status_reply 201 []] []) example_client 7
          (CStr ''Maintenance'') None) = Inr False
   \<and> log (snd (approve_invoice (scripted [status_reply 201 []] []) example_client 7
                 (CStr ''Maintenance'') None))
      = [TokenFetch (TokenResponse True (Some ''T1'')),
         ApiCall (approve_request 7 None ''Maintenance'') ''T1'' (status_reply 201 [])]"
proof -
  let ?w = "scripted [status_reply 201 []] []"
  have tok: "token_box example_client = Some ''T1''" "''T1'' \<noteq> []"
    by (simp_all add: example_client_def)
  have cat: "or_empty_strip (CStr ''Maintenance'') = Inr ''Maintenance''"
    by (rule example_requests)
  have r1: "api_reply ?w (api_calls (log example_client)) = status_reply 201 []"
    by (simp add: scripted_simps example_client_def)
  show ?thesis
    by (simp add: approve_link [OF cat] auth_guarded_eq [OF tok] r1 Let_def)
       (simp add: status_reply_def approve_finish_def example_client_def)
qed

subsection \<open>A whole run\<close>

lemma auth_guarded_run:
  assumes "has_token s"
  shows "auth_guarded w req s =
     (let t = slot_token s;
          r1 = api_reply w (api_calls (log s));
          tr = token_reply_at w (token_fetches (log s));
          r2 = api_reply w (api_calls (log s) + 1)
      in case r1 of
           ConnectionFailed \<Rightarrow> (Inl RequestException, s\<lparr>log := log s @ [ApiCall req t r1]\<rparr>)
         | Response resp \<Rightarrow>
             if status_code resp = 401
             then (case good_token tr of
                     None \<Rightarrow>
                       (Inl (if tr = TokenConnectionFailed then RequestException else RuntimeError),
                        s\<lparr>log := log s @ [ApiCall req t r1, TokenFetch tr]\<rparr>)
                   | Some t' \<Rightarrow>
                       ((case r2 of ConnectionFailed \<Rightarrow> Inl RequestException
                                  | Response resp2 \<Rightarrow> Inr resp2),
                        s\<lparr>token_box := Some t',
                          log := log s @ [ApiCall req t r1, TokenFetch tr, ApiCall req t' r2]\<rparr>))
             else (Inr resp, s\<lparr>log := log s @ [ApiCall req t r1]\<rparr>))"
proof -
  from assms obtain t where t: "token_box s = Some t" "t \<noteq> []"
    by (auto simp: has_token_def split: option.splits)
  show ?thesis
    by (simp add: auth_guarded_eq [OF t] slot_token_def t)
qed

lemma example_run:
  "approvals_body example_world decimal_lib (Some example_sheet) =
     \<lparr>approved_count = 1, failed_count = 1, review_count = 2, error_text = None,
      final =
        \<lparr>token_box = Some ''T2'',
         cache = [''5001'' \<mapsto> Some \<lparr>meta_id = 7, meta_trade = Some ''LANDSCAPING'',
                                    meta_approval_code = None, meta_number = None\<rparr>,
                  ''5002'' \<mapsto> Some \<lparr>meta_id = 8, meta_trade = Some ''LANDSCAPING'',
                                    meta_approval_code = None, meta_number = None\<rparr>],
         log = [TokenFetch (TokenResponse True (Some ''T1'')),
                ApiCall (LookupRequest (filter_expr ''5001'')) ''T1'' (found_reply 7),
                ApiCall (approve_request 7 None ''Maintenance'') ''T1'' (status_reply 401 []),
                TokenFetch (TokenResponse True (Some ''T2'')),
                ApiCall (approve_request 7 None ''Maintenance'') ''T2'' (status_reply 200 []),
                ApiCall (LookupRequest (filter_expr ''5002'')) ''T2'' (found_reply 8),
                ApiCall (approve_request 8 None ''Maintenance'') ''T2'' (status_reply 500 [])]\<rparr>\<rparr>"
proof -
  let ?m7 = "\<lparr>meta_id = 7, meta_trade = Some ''LANDSCAPING'',
               meta_approval_code = None, meta_number = None\<rparr>"
  let ?m8 = "\<lparr>meta_id = 8, meta_trade = Some ''LANDSCAPING'',
               meta_approval_code = None, meta_number = None\<rparr>"
  let ?w = example_world
  let ?s1 = "\<lparr>token_box = Some ''T1'', cache = Map.empty,
              log = [TokenFetch (TokenResponse True (Some ''T1''))]\<rparr>"
  note w = example_world_def scripted_simps found_reply_def status_reply_def
  have first: "get_access_token ?w \<lparr>token_box = None, cache = Map.empty, log = []\<rparr>
               = (Inr ''T1'', \<lparr>token_box = None, cache = Map.empty,
                                log = [TokenFetch (TokenResponse True (Some ''T1''))]\<rparr>)"
    by (simp add: get_access_token_eq w)
  let ?e1 = "TokenFetch (TokenResponse True (Some ''T1''))"
  let ?e2 = "ApiCall (LookupRequest (filter_expr ''5001'')) ''T1'' (found_reply 7)"
  let ?e3 = "ApiCall (approve_request 7 None ''Maintenance'') ''T1'' (status_reply 401 [])"
  let ?e4 = "TokenFetch (TokenResponse True (Some ''T2''))"
  let ?e5 = "ApiCall (approve_request 7 None ''Maintenance'') ''T2'' (status_reply 200 [])"
  let ?e6 = "ApiCall (LookupRequest (filter_expr ''5002'')) ''T2'' (found_reply 8)"
  let ?e7 = "ApiCall (approve_request 8 None ''Maintenance'') ''T2'' (status_reply 500 [])"
  let ?c1 = "[''5001'' \<mapsto> Some ?m7]"
  let ?c2 = "[''5001'' \<mapsto> Some ?m7, ''5002'' \<mapsto> Some ?m8]"
  let ?s2 = "\<lparr>token_box = Some ''T1'', cache = ?c1, log = [?e1, ?e2]\<rparr>"
  let ?s3 = "\<lparr>token_box = Some ''T2'', cache = ?c1, log = [?e1, ?e2, ?e3, ?e4, ?e5]\<rparr>"
  let ?s4 = "\<lparr>token_box = Some ''T2'', cache = ?c2, log = [?e1, ?e2, ?e3, ?e4, ?e5, ?e6]\<rparr>"
  let ?s5 = "\<lparr>token_box = Some ''T2'', cache = ?c2, log = [?e1, ?e2, ?e3, ?e4, ?e5, ?e6, ?e7]\<rparr>"
  have l1: "lookup_invoice_by_wo ?w ''5001'' ?s1 = (Inr (Some ?m7), ?s2)"
    by (subst lookup_link)
       (simp_all add: example_strings auth_guarded_run has_token_def slot_token_def w Let_def
          lookup_finish_def cache_put_def)
  have a1: "approve_invoice ?w ?s2 7 (CStr ''Maintenance'') None = (Inr True, ?s3)"
    by (subst approve_link [OF example_requests(2)])
       (simp add: auth_guarded_run has_token_def slot_token_def w Let_def approve_finish_def)
  have l2: "lookup_invoice_by_wo ?w ''5002'' ?s3 = (Inr (Some ?m8), ?s4)"
    by (subst lookup_link)
       (simp_all add: example_strings auth_guarded_run has_token_def slot_token_def w Let_def
          lookup_finish_def cache_put_def)
  have a2: "approve_invoice ?w ?s4 8 (CStr ''Maintenance'') None = (Inr False, ?s5)"
    by (subst approve_link [OF example_requests(2)])
       (simp add: auth_guarded_run has_token_def slot_token_def w Let_def approve_finish_def)
  have loop: "process_rows ?w decimal_lib
                [sheet_row ''5001'' (CStr ''Approved''), sheet_row ''5002'' (CStr '' approved '')]
                0 0 ?s1 = (Inr (1, 1), ?s5)"
    by (simp add: example_row_fields example_requests(2,3) astype_str_def l1 a1 l2 a2)
  show ?thesis
    by (simp add: approvals_body_def first example_sheet_loaded example_rows_split Let_def loop
        del: process_rows.simps)
qed







subsection \<open>The status mail\<close>

lemma run_approvals_body:
  "fst (run_approvals w en P invoice_file sheet) = approvals_body w P sheet"
  by (simp add: run_approvals_def Let_def)







subsection \<open>The life of the token\<close>

lemma follow_weaken:
  "fetches_follow_401 None es \<Longrightarrow> fetches_follow_401 p es"
  by (cases es) auto

lemma follow_append:
  "fetches_follow_401 p xs \<Longrightarrow> fetches_follow_401 None ys \<Longrightarrow> fetches_follow_401 p (xs @ ys)"
proof (induction xs arbitrary: p)
  case Nil
  then show ?case by (simp add: follow_weaken)
next
  case (Cons e xs)
  then show ?case by simp
qed

lemma slot_after_append:
  "slot_after sl (xs @ ys) = slot_after (slot_after sl xs) ys"
proof (induction xs arbitrary: sl)
  case Nil
  then show ?case by simp
next
  case (Cons e xs)
  then show ?case by (cases e) simp_all
qed

lemma follow_nth:
  "fetches_follow_401 p es \<Longrightarrow> i < length es \<Longrightarrow> \<not> is_api_call (es ! i)
   \<Longrightarrow> answered_401 (if i = 0 then p else Some (es ! (i - 1)))"
proof (induction es arbitrary: p i)
  case Nil
  then show ?case by simp
next
  case (Cons e es)
  show ?case
  proof (cases i)
    case 0
    then show ?thesis using Cons.prems by simp
  next
    case (Suc j)
    have "answered_401 (if j = 0 then Some e else Some (es ! (j - 1)))"
      using Cons.IH [of "Some e" j] Cons.prems Suc by simp
    then show ?thesis
      using Suc by (cases j) simp_all
  qed
qed

lemma extends_refl: "has_token s \<Longrightarrow> extends s s"
  by (auto simp: extends_def intro: exI [of _ "[]"])

lemma extends_trans:
  assumes "extends s s'" "extends s' s''"
  shows "extends s s''"
proof -
  from assms(1) obtain e1 where e1: "log s' = log s @ e1" "fetches_follow_401 None e1"
    "token_box s' = slot_after (token_box s) e1"
    by (auto simp: extends_def)
  from assms(2) obtain e2 where e2: "log s'' = log s' @ e2" "fetches_follow_401 None e2"
    "token_box s'' = slot_after (token_box s') e2" and tok: "has_token s''"
    by (auto simp: extends_def)
  have "log s'' = log s @ (e1 @ e2)" using e1 e2 by simp
  moreover have "fetches_follow_401 None (e1 @ e2)"
    using e1(2) e2(2) by (rule follow_append)
  moreover have "token_box s'' = slot_after (token_box s) (e1 @ e2)"
    using e1 e2 by (simp add: slot_after_append)
  ultimately show ?thesis
    using tok unfolding extends_def by blast
qed

lemma extends_same:
  assumes "extends s s'" "log s'' = log s'" "token_box s'' = token_box s'"
  shows "extends s s''"
  using assms by (simp add: extends_def has_token_def)

lemma auth_guarded_extends:
  assumes tok: "has_token s"
  shows "extends s (snd (auth_guarded w req s))"
proof -
  from tok obtain t where t: "token_box s = Some t" "t \<noteq> []"
    by (auto simp: has_token_def split: option.splits)
  let ?r1 = "api_reply w (api_calls (log s))"
  let ?tr = "token_reply_at w (token_fetches (log s))"
  let ?r2 = "api_reply w (api_calls (log s) + 1)"
  note ag = auth_guarded_eq [OF t, of w req]
  have one: "extends s (s\<lparr>log := log s @ [ApiCall req t ?r1]\<rparr>)"
    using t by (auto simp: extends_def has_token_def intro!: exI [of _ "[ApiCall req t ?r1]"])
  show ?thesis
  proof (cases ?r1)
    case ConnectionFailed
    then show ?thesis using one by (simp add: ag Let_def)
  next
    case (Response resp)
    show ?thesis
    proof (cases "status_code resp = 401")
      case False
      then show ?thesis using one Response by (simp add: ag Let_def)
    next
      case True
      show ?thesis
      proof (cases "good_token ?tr")
        case None
        have "extends s (s\<lparr>log := log s @ [ApiCall req t ?r1, TokenFetch ?tr]\<rparr>)"
          using t None Response True
          by (auto simp: extends_def has_token_def
              intro!: exI [of _ "[ApiCall req t ?r1, TokenFetch ?tr]"])
        then show ?thesis using Response True None by (simp add: ag Let_def)
      next
        case (Some t')
        have "extends s (s\<lparr>token_box := Some t',
                 log := log s @ [ApiCall req t ?r1, TokenFetch ?tr, ApiCall req t' ?r2]\<rparr>)"
          using t Some Response True good_token_nonempty [OF Some]
          by (auto simp: extends_def has_token_def
              intro!: exI [of _ "[ApiCall req t ?r1, TokenFetch ?tr, ApiCall req t' ?r2]"])
        then show ?thesis using Response True Some by (simp add: ag Let_def)
      qed
    qed
  qed
qed

lemma lookup_extends:
  assumes tok: "has_token s"
  shows "extends s (snd (lookup_invoice_by_wo w wo s))"
proof (cases "strip wo = []")
  case True
  then show ?thesis using tok by (simp add: lookup_invoice_by_wo_def extends_refl)
next
  case False
  show ?thesis
  proof (cases "cache s (strip wo)")
    case (Some m)
    then show ?thesis using tok False by (simp add: lookup_invoice_by_wo_def extends_refl)
  next
    case None
    note st = lookup_state [OF False None, of w]
    show ?thesis
      by (rule extends_same [OF auth_guarded_extends [OF tok]]) (simp_all add: st)
  qed
qed

lemma approve_extends:
  assumes tok: "has_token s"
  shows "extends s (snd (approve_invoice w s invoice_id category approval_code))"
proof (cases "or_empty_strip category")
  case (Inl e)
  then show ?thesis using tok by (simp add: approve_invoice_def extends_refl)
next
  case (Inr cat)
  show ?thesis
    by (simp add: approve_state [OF Inr] auth_guarded_extends [OF tok])
qed

lemma extends_has_token: "extends s s' \<Longrightarrow> has_token s'"
  by (simp add: extends_def)

lemma process_rows_extends:
  "has_token s \<Longrightarrow> extends s (snd (process_rows w P rs a f s))"
proof (induction rs arbitrary: a f s)
  case Nil
  then show ?case by (simp add: extends_refl)
next
  case (Cons row rest)
  show ?case
  proof (cases "or_empty_strip (row ''Trade'')")
    case (Inl e)
    then show ?thesis using Cons.prems by (simp add: extends_refl)
  next
    case tr: (Inr tr)
    obtain r s1 where l: "lookup_invoice_by_wo w (astype_str P (row ''W.O.#'')) s = (r, s1)"
      by (cases "lookup_invoice_by_wo w (astype_str P (row ''W.O.#'')) s")
    have e1: "extends s s1"
      using lookup_extends [OF Cons.prems, of w "astype_str P (row ''W.O.#'')"] l by simp
    note t1 = extends_has_token [OF e1]
    show ?thesis
    proof (cases r)
      case (Inl e)
      then show ?thesis using tr l e1 by simp
    next
      case (Inr mo)
      show ?thesis
      proof (cases mo)
        case None
        have "extends s (snd (process_rows w P rest a (f + 1) s1))"
          by (rule extends_trans [OF e1 Cons.IH [OF t1]])
        then show ?thesis using tr l Inr None by simp
      next
        case (Some m)
        obtain r2 s2 where ap:
          "approve_invoice w s1 (meta_id m) (row ''Category'') (meta_approval_code m) = (r2, s2)"
          by (cases "approve_invoice w s1 (meta_id m) (row ''Category'') (meta_approval_code m)")
        have "extends s1 s2"
          using approve_extends [OF t1, of w "meta_id m" "row ''Category''" "meta_approval_code m"] ap
          by simp
        then have e2: "extends s s2" by (rule extends_trans [OF e1])
        note t2 = extends_has_token [OF e2]
        show ?thesis
        proof (cases r2)
          case (Inl e)
          then show ?thesis using tr l Inr Some ap e2 by simp
        next
          case ok: (Inr ok)
          have "extends s (snd (process_rows w P rest a' f' s2))" for a' f'
            by (rule extends_trans [OF e2 Cons.IH [OF t2]])
          then show ?thesis using tr l Inr Some ap ok by simp
        qed
      qed
    qed
  qed
qed

lemma approvals_body_log:
  "\<exists>rest. log (final (approvals_body w P sheet)) = TokenFetch (token_reply_at w 0) # rest
          \<and> fetches_follow_401 (Some (TokenFetch (token_reply_at w 0))) rest
          \<and> token_box (final (approvals_body w P sheet))
              = slot_after None (TokenFetch (token_reply_at w 0) # rest)"
proof -
  let ?s0 = "\<lparr>token_box = None, cache = Map.empty, log = []\<rparr>"
  let ?r0 = "token_reply_at w 0"
  let ?s1 = "?s0\<lparr>log := log ?s0 @ [TokenFetch ?r0]\<rparr>"
  have g: "get_access_token w ?s0 =
     ((case good_token ?r0 of Some t \<Rightarrow> Inr t
       | None \<Rightarrow> Inl (if ?r0 = TokenConnectionFailed then RequestException else RuntimeError)),
      ?s1)"
    by (simp add: get_access_token_eq)
  show ?thesis
  proof (cases "good_token ?r0")
    case None
    then show ?thesis by (simp add: approvals_body_def g)
  next
    case (Some t)
    let ?s2 = "?s1\<lparr>token_box := Some t\<rparr>"
    have tok: "has_token ?s2"
      using good_token_nonempty [OF Some] by (simp add: has_token_def)
    have start: "log ?s2 = [TokenFetch ?r0]" "token_box ?s2 = slot_after None [TokenFetch ?r0]"
      using Some by simp_all
    have fin: "\<exists>rest. log s3 = TokenFetch ?r0 # rest
          \<and> fetches_follow_401 (Some (TokenFetch ?r0)) rest
          \<and> token_box s3 = slot_after None (TokenFetch ?r0 # rest)"
      if "extends ?s2 s3" for s3
    proof -
      from that obtain ext where ext: "log s3 = log ?s2 @ ext" "fetches_follow_401 None ext"
        "token_box s3 = slot_after (token_box ?s2) ext"
        by (auto simp: extends_def)
      have "log s3 = TokenFetch ?r0 # ext" using ext(1) by simp
      moreover have "fetches_follow_401 (Some (TokenFetch ?r0)) ext"
        using ext(2) by (rule follow_weaken)
      moreover have "token_box s3 = slot_after None (TokenFetch ?r0 # ext)"
        using ext(3) Some by simp
      ultimately show ?thesis by blast
    qed
    show ?thesis
    proof (cases "load_rate_comps sheet")
      case (Inl e)
      have "final (approvals_body w P sheet) = ?s2"
        by (simp add: approvals_body_def g Some Inl)
      then show ?thesis using fin [OF extends_refl [OF tok]] by simp
    next
      case (Inr df)
      show ?thesis
      proof (cases "filter (is_approved P) (rows df) = []")
        case True
        have "final (approvals_body w P sheet) = ?s2"
          by (simp add: approvals_body_def g Some Inr True Let_def)
        then show ?thesis using fin [OF extends_refl [OF tok]] by simp
      next
        case False
        obtain r3 s3 where p: "process_rows w P (filter (is_approved P) (rows df)) 0 0 ?s2 = (r3, s3)"
          by (cases "process_rows w P (filter (is_approved P) (rows df)) 0 0 ?s2")
        have e: "extends ?s2 s3"
          using process_rows_extends [OF tok, of w P "filter (is_approved P) (rows df)" 0 0] p
          by simp
        have "final (approvals_body w P sheet) = s3"
          using p
          by (cases r3)
             (auto simp: approvals_body_def g Some Inr False Let_def simp del: process_rows.simps)
        then show ?thesis using fin [OF e] by simp
      qed
    qed
  qed
qed

text \<open>
  C7 (as amended). Every run begins with a token fetch, before the sheet is read and
  whether or not any API request follows. After that first fetch a token is fetched
  only directly after an API request that was answered 401. The slot always holds the
  token of the last fetch that yielded one (none before the first), so it is replaced
  by nothing else; and \<^verbatim>\<open>get_or_refresh_token\<close> fetches nothing while the slot holds
  a token. A run starts from an empty slot: no token comes from an earlier run.
\<close>

theorem token_fetched_first_then_on_401:
  "(\<exists>rest. log (final (fst (run_approvals w en P invoice_file sheet)))
             = TokenFetch (token_reply_at w 0) # rest)
   \<and> (\<forall>i. 0 < i \<and> i < length (log (final (fst (run_approvals w en P invoice_file sheet))))
            \<and> \<not> is_api_call (log (final (fst (run_approvals w en P invoice_file sheet))) ! i)
          \<longrightarrow> answered_401
                (Some (log (final (fst (run_approvals w en P invoice_file sheet))) ! (i - 1))))
   \<and> token_box (final (fst (run_approvals w en P invoice_file sheet)))
       = slot_after None (log (final (fst (run_approvals w en P invoice_file sheet))))
   \<and> (has_token s \<longrightarrow> get_or_refresh_token w s = (Inr (slot_token s), s))"
proof -
  have body: "fst (run_approvals w en P invoice_file sheet) = approvals_body w P sheet"
    by (simp add: run_approvals_def Let_def)
  from approvals_body_log [of w P sheet] obtain rest where
    l: "log (final (approvals_body w P sheet)) = TokenFetch (token_reply_at w 0) # rest"
    and f: "fetches_follow_401 (Some (TokenFetch (token_reply_at w 0))) rest"
    and t: "token_box (final (approvals_body w P sheet))
              = slot_after None (TokenFetch (token_reply_at w 0) # rest)"
    by blast
  have idx: "answered_401 (Some ((TokenFetch (token_reply_at w 0) # rest) ! (i - 1)))"
    if i: "0 < i" "i < length (TokenFetch (token_reply_at w 0) # rest)"
      "\<not> is_api_call ((TokenFetch (token_reply_at w 0) # rest) ! i)" for i
  proof -
    from i obtain j where j: "i = Suc j" by (cases i) auto
    have "answered_401 (if j = 0 then Some (TokenFetch (token_reply_at w 0))
                        else Some (rest ! (j - 1)))"
      using follow_nth [OF f, of j] i j by simp
    then show ?thesis
      using j by (cases j) simp_all
  qed
  have lazy: "get_or_refresh_token w s = (Inr (slot_token s), s)" if "has_token s"
    using that
    by (auto simp: get_or_refresh_token_def has_token_def slot_token_def split: option.splits)
  show ?thesis
    unfolding body l
  proof (intro conjI allI impI)
    show "\<exists>rest'. TokenFetch (token_reply_at w 0) # rest = TokenFetch (token_reply_at w 0) # rest'"
      by blast
  next
    fix i
    assume "0 < i \<and> i < length (TokenFetch (token_reply_at w 0) # rest)
            \<and> \<not> is_api_call ((TokenFetch (token_reply_at w 0) # rest) ! i)"
    then show "answered_401 (Some ((TokenFetch (token_reply_at w 0) # rest) ! (i - 1)))"
      using idx by blast
  next
    show "token_box (final (approvals_body w P sheet))
            = slot_after None (TokenFetch (token_reply_at w 0) # rest)"
      by (rule t)
  next
    assume "has_token s"
    then show "get_or_refresh_token w s = (Inr (slot_token s), s)"
      by (rule lazy)
  qed
qed

theorem token_fetched_first_then_on_401_witness:
  "0 < (3::nat)
   \<and> 3 < length (log (final (fst (run_approvals example_world example_env decimal_lib
                                      ''book.xlsx'' (Some example_sheet)))))
   \<and> log (final (fst (run_approvals example_world example_env decimal_lib
                         ''book.xlsx'' (Some example_sheet)))) ! 3
       = TokenFetch (TokenResponse True (Some ''T2''))
   \<and> answered_401 (Some (log (final (fst (run_approvals example_world example_env decimal_lib
                                            ''book.xlsx'' (Some example_sheet)))) ! 2))
   \<and> has_token example_client
   \<and> get_or_refresh_token example_world example_client = (Inr ''T1'', example_client)"
proof -
  let ?L = "log (final (fst (run_approvals example_world example_env decimal_lib
                         ''book.xlsx'' (Some example_sheet))))"
  have L: "?L = [TokenFetch (TokenResponse True (Some ''T1'')),
                ApiCall (LookupRequest (filter_expr ''5001'')) ''T1'' (found_reply 7),
                ApiCall (approve_request 7 None ''Maintenance'') ''T1'' (status_reply 401 []),
                TokenFetch (TokenResponse True (Some ''T2'')),
                ApiCall (approve_request 7 None ''Maintenance'') ''T2'' (status_reply 200 []),
                ApiCall (LookupRequest (filter_expr ''5002'')) ''T2'' (found_reply 8),
                ApiCall (approve_request 8 None ''Maintenance'') ''T2'' (status_reply 500 [])]"
    by (simp add: run_approvals_body example_run)
  have h: "0 < (3::nat)" "3 < length ?L" "\<not> is_api_call (?L ! 3)"
    "?L ! 3 = TokenFetch (TokenResponse True (Some ''T2''))"
    by (simp_all add: L)
  have tok: "has_token example_client"
    by (simp add: has_token_def example_client_def)
  note inst = token_fetched_first_then_on_401 [where w = example_world and en = example_env
      and P = decimal_lib and invoice_file = "''book.xlsx''" and sheet = "Some example_sheet"
      and s = example_client]
  from inst h have "answered_401 (Some (?L ! (3 - 1)))"
    by blast
  then have a: "answered_401 (Some (?L ! 2))" by simp
  from inst tok have "get_or_refresh_token example_world example_client
                      = (Inr (slot_token example_client), example_client)"
    by blast
  then have "get_or_refresh_token example_world example_client = (Inr ''T1'', example_client)"
    by (simp add: slot_token_def example_client_def)
  then show ?thesis
    using h a tok by simp
qed

text \<open>
  C7 as stated fails: on a sheet without a row to approve the run fetches a token and
  never sends an API request.
\<close>

theorem token_fetched_without_any_request:
  "log (final (fst (run_approvals (scripted [] [TokenResponse True (Some ''T1'')]) example_env
                      decimal_lib ''book.xlsx''
                      (Some \<lparr>columns = expected_cols,
                             rows = [sheet_row ''5003'' (CStr ''Review'')]\<rparr>))))
     = [TokenFetch (TokenResponse True (Some ''T1''))]
   \<and> api_calls (log (final (fst (run_approvals (scripted [] [TokenResponse True (Some ''T1'')])
                                    example_env decimal_lib ''book.xlsx''
                                    (Some \<lparr>columns = expected_cols,
                                           rows = [sheet_row ''5003'' (CStr ''Review'')]\<rparr>))))) = 0
   \<and> review_count (fst (run_approvals (scripted [] [TokenResponse True (Some ''T1'')]) example_env
                      decimal_lib ''book.xlsx''
                      (Some \<lparr>columns = expected_cols,
                             rows = [sheet_row ''5003'' (CStr ''Review'')]\<rparr>))) = 1"
proof -
  let ?w = "scripted [] [TokenResponse True (Some ''T1'')]"
  let ?df = "\<lparr>columns = expected_cols, rows = [sheet_row ''5003'' (CStr ''Review'')]\<rparr>"
  have first: "get_access_token ?w \<lparr>token_box = None, cache = Map.empty, log = []\<rparr>
               = (Inr ''T1'', \<lparr>token_box = None, cache = Map.empty,
                                log = [TokenFetch (TokenResponse True (Some ''T1''))]\<rparr>)"
    by (simp add: get_access_token_eq scripted_simps)
  have ld: "load_rate_comps (Some ?df) = Inr ?df"
    by (simp add: load_rate_comps_def expected_cols_def)
  have body: "approvals_body ?w decimal_lib (Some ?df)
              = \<lparr>approved_count = 0, failed_count = 0, review_count = 1, error_text = None,
                 final = \<lparr>token_box = Some ''T1'', cache = Map.empty,
                           log = [TokenFetch (TokenResponse True (Some ''T1''))]\<rparr>\<rparr>"
    by (simp add: approvals_body_def first ld example_statuses Let_def)
  show ?thesis
    by (simp add: run_approvals_body body)
qed

end
